theory Spec2Isabelle
  imports Complex_Main
begin

section \<open>Text primitives used by the generated parsers\<close>

text \<open>
  Text is a list of 8-bit characters. The models of \<^verbatim>\<open>str.strip\<close>, \<^verbatim>\<open>str.split\<close>,
  \<^verbatim>\<open>str.lower\<close> and of the regular-expression class \<^verbatim>\<open>\d\<close> are the ASCII
  fragments of the Python operations: statement text is taken to be ASCII.
\<close>

definition is_digit :: "char \<Rightarrow> bool" where
  "is_digit c = (c \<in> set ''0123456789'')"

text \<open>The ASCII characters for which \<^verbatim>\<open>str.isspace\<close> holds.\<close>

definition is_space :: "char \<Rightarrow> bool" where
  "is_space c = (c \<in> set [CHR 0x09, CHR 0x0A, CHR 0x0B, CHR 0x0C, CHR 0x0D,
                           CHR 0x1C, CHR 0x1D, CHR 0x1E, CHR 0x1F, CHR 0x20])"

definition is_dash :: "char \<Rightarrow> bool" where
  "is_dash c = (c = CHR ''-'')"

definition is_dot :: "char \<Rightarrow> bool" where
  "is_dot c = (c = CHR ''.'')"

definition is_digit_or_comma :: "char \<Rightarrow> bool" where
  "is_digit_or_comma c = (is_digit c \<or> c = CHR '','')"

text \<open>\<^verbatim>\<open>text.split('\n')\<close>: splitting at every separator, empty pieces kept.\<close>

fun split_on :: "char \<Rightarrow> string \<Rightarrow> string list" where
  "split_on sep [] = [[]]"
| "split_on sep (c # cs) =
     (if c = sep then [] # split_on sep cs
      else (case split_on sep cs of
              [] \<Rightarrow> [[c]]
            | l # ls \<Rightarrow> (c # l) # ls))"

text \<open>\<^verbatim>\<open>line.strip()\<close>: whitespace removed at both ends.\<close>

definition strip :: "string \<Rightarrow> string" where
  "strip s = rev (dropWhile is_space (rev (dropWhile is_space s)))"

text \<open>\<^verbatim>\<open>line.split()\<close>: the maximal runs of non-whitespace characters, in order.\<close>

fun split_ws :: "string \<Rightarrow> string list" where
  "split_ws [] = []"
| "split_ws (c # cs) =
     (if is_space c then split_ws cs
      else (case cs of
              [] \<Rightarrow> [[c]]
            | d # _ \<Rightarrow>
                if is_space d then [c] # split_ws cs
                else (case split_ws cs of
                        [] \<Rightarrow> [[c]]
                      | w # ws \<Rightarrow> (c # w) # ws)))"

text \<open>\<^verbatim>\<open>' '.join(parts)\<close>.\<close>

fun join_sp :: "string list \<Rightarrow> string" where
  "join_sp [] = []"
| "join_sp [w] = w"
| "join_sp (w # ws) = w @ '' '' @ join_sp ws"

text \<open>\<^verbatim>\<open>str.lower\<close> on ASCII letters.\<close>

definition lower_char :: "char \<Rightarrow> char" where
  "lower_char c =
     (case map_of (zip ''ABCDEFGHIJKLMNOPQRSTUVWXYZ'' ''abcdefghijklmnopqrstuvwxyz'') c of
        None \<Rightarrow> c
      | Some d \<Rightarrow> d)"

definition lower :: "string \<Rightarrow> string" where
  "lower s = map lower_char s"

text \<open>\<^verbatim>\<open>word in s\<close>: \<open>word\<close> occurs in \<open>s\<close> as a contiguous piece.\<close>

definition starts_with :: "string \<Rightarrow> string \<Rightarrow> bool" where
  "starts_with w s = (take (length w) s = w)"

fun contains :: "string \<Rightarrow> string \<Rightarrow> bool" where
  "contains w [] = (w = [])"
| "contains w (c # cs) = (starts_with w (c # cs) \<or> contains w cs)"

text \<open>\<^verbatim>\<open>part.replace(',', '')\<close>.\<close>

definition strip_commas :: "string \<Rightarrow> string" where
  "strip_commas s = filter (\<lambda>c. c \<noteq> CHR '','') s"

subsection \<open>The two regular expressions\<close>

text \<open>
  A pattern that is a fixed sequence of character classes matches at the start of a
  string when the string's first characters lie in the classes, one by one.
\<close>

fun matches_at :: "(char \<Rightarrow> bool) list \<Rightarrow> string \<Rightarrow> bool" where
  "matches_at [] s = True"
| "matches_at (p # ps) [] = False"
| "matches_at (p # ps) (c # cs) = (p c \<and> matches_at ps cs)"

text \<open>\<^verbatim>\<open>\d{2}-\d{2}-\d{4}\<close>\<close>

definition date_pattern :: "(char \<Rightarrow> bool) list" where
  "date_pattern = [is_digit, is_digit, is_dash, is_digit, is_digit, is_dash,
                   is_digit, is_digit, is_digit, is_digit]"

text \<open>\<^verbatim>\<open>re.search(r'\d{2}-\d{2}-\d{4}', line)\<close>: the pattern matches at some position.\<close>

fun date_search :: "string \<Rightarrow> bool" where
  "date_search [] = False"
| "date_search (c # cs) = (matches_at date_pattern (c # cs) \<or> date_search cs)"

text \<open>
  \<^verbatim>\<open>re.match(r'[\d,]+\.\d{2}', part)\<close>: a match at the start of the token, with nothing
  required of what follows it. The greedy run \<^verbatim>\<open>[\d,]+\<close> is the longest prefix of digits
  and commas; a shorter run cannot be followed by the point, since the next character
  would still be a digit or a comma.
\<close>

definition amount_match :: "string \<Rightarrow> bool" where
  "amount_match part =
     (takeWhile is_digit_or_comma part \<noteq> [] \<and>
      matches_at [is_dot, is_digit, is_digit] (dropWhile is_digit_or_comma part))"

section \<open>The Transaction Line Parser\<close>

record transaction =
  Date :: string
  Description :: string
  Debit_Amt :: string
  Credit_Amt :: string
  Balance :: string

definition icici_keywords :: "string list" where
  "icici_keywords = [''debit'', ''withdrawal'', ''payment'', ''purchase'']"

definition generic_keywords :: "string list" where
  "generic_keywords = [''debit'', ''withdrawal'', ''payment'', ''purchase'', ''atm'', ''card'']"

text \<open>\<^verbatim>\<open>any(word in description.lower() for word in keywords)\<close>\<close>

definition has_keyword :: "string list \<Rightarrow> string \<Rightarrow> bool" where
  "has_keyword keywords description = list_ex (\<lambda>word. contains word (lower description)) keywords"

text \<open>
  The loop over \<^verbatim>\<open>parts[1:]\<close>: each token is appended either to \<open>amounts\<close> (commas
  removed) or to \<open>description_parts\<close>.
\<close>

fun classify_parts :: "string list \<Rightarrow> string list \<Rightarrow> string list \<Rightarrow> string list \<times> string list" where
  "classify_parts [] description_parts amounts = (description_parts, amounts)"
| "classify_parts (part # parts) description_parts amounts =
     (if amount_match part
      then classify_parts parts description_parts (amounts @ [strip_commas part])
      else classify_parts parts (description_parts @ [part]) amounts)"

text \<open>
  The branching on \<^verbatim>\<open>len(amounts)\<close>; the result is
  \<open>(debit_amt, credit_amt, balance)\<close>, each initially the empty string.
\<close>

fun assign_amounts :: "string list \<Rightarrow> string \<Rightarrow> string list \<Rightarrow> string \<times> string \<times> string" where
  "assign_amounts keywords description [] = ('''', '''', '''')"
| "assign_amounts keywords description [a0] =
     (if has_keyword keywords description then (a0, '''', '''') else ('''', a0, ''''))"
| "assign_amounts keywords description [a0, a1] =
     (if has_keyword keywords description then (a0, '''', a1) else ('''', a0, a1))"
| "assign_amounts keywords description (a0 # a1 # a2 # rest) = (a0, a1, a2)"

text \<open>
  The tokens of one physical line, when the line passes the three filters (not blank, a
  date pattern somewhere, at least three tokens): the date token, the description and
  the amounts.
\<close>

definition line_tokens :: "string \<Rightarrow> (string \<times> string \<times> string list) option" where
  "line_tokens raw =
     (let line = strip raw in
      if line = [] then None
      else if \<not> date_search line then None
      else (case split_ws line of
              date # p1 # p2 # ps \<Rightarrow>
                (let (description_parts, amounts) = classify_parts (p1 # p2 # ps) [] []
                 in Some (date, join_sp description_parts, amounts))
            | _ \<Rightarrow> None))"

text \<open>
  One iteration of the loop over lines: \<open>Some\<close> the record appended, \<open>None\<close> when the
  line is skipped. No step of the \<^verbatim>\<open>try\<close> block can raise (every index read is guarded
  by a length test), so the \<^verbatim>\<open>except\<close> branch has no counterpart here.
\<close>

definition parse_line :: "string list \<Rightarrow> string \<Rightarrow> transaction option" where
  "parse_line keywords raw =
     (case line_tokens raw of
        None \<Rightarrow> None
      | Some (date, description, amounts) \<Rightarrow>
          (let (debit_amt, credit_amt, balance) = assign_amounts keywords description amounts
           in if description \<noteq> [] \<and> (debit_amt \<noteq> [] \<or> credit_amt \<noteq> [])
              then Some \<lparr>Date = date, Description = description, Debit_Amt = debit_amt,
                         Credit_Amt = credit_amt, Balance = balance\<rparr>
              else None))"

fun parse_lines :: "string list \<Rightarrow> string list \<Rightarrow> transaction list" where
  "parse_lines keywords [] = []"
| "parse_lines keywords (line # lines) =
     (case parse_line keywords line of
        None \<Rightarrow> parse_lines keywords lines
      | Some t \<Rightarrow> t # parse_lines keywords lines)"

definition parse_transactions :: "string list \<Rightarrow> string \<Rightarrow> transaction list" where
  "parse_transactions keywords text = parse_lines keywords (split_on (CHR 0x0A) text)"

definition parse_icici_transactions :: "string \<Rightarrow> transaction list" where
  "parse_icici_transactions text = parse_transactions icici_keywords text"

definition parse_generic_transactions :: "string \<Rightarrow> transaction list" where
  "parse_generic_transactions text = parse_transactions generic_keywords text"

text \<open>
  The amount pattern as the specification words it, for comparison with \<open>amount_match\<close>:
  digits with optional thousands separators, a literal decimal point and exactly two
  decimal digits, and nothing else in the token.
\<close>

definition spec_amount_token :: "string \<Rightarrow> bool" where
  "spec_amount_token part =
     (takeWhile is_digit_or_comma part \<noteq> [] \<and>
      (case dropWhile is_digit_or_comma part of
         [p, d1, d2] \<Rightarrow> is_dot p \<and> is_digit d1 \<and> is_digit d2
       | _ \<Rightarrow> False))"

section \<open>Tables as the generated parser and the agent handle them\<close>

text \<open>
  A pandas column is a dtype and a list of cells; a DataFrame is its index length and its
  labelled columns in order (the index is always the default range index: both sides are
  compared after \<^verbatim>\<open>reset_index(drop=True)\<close>). A number is a rational: of a float only its
  value is compared, and the two zeros are one value. Infinite floats are not modelled.
  Column labels are distinct in every frame that \<^verbatim>\<open>read_csv\<close> or the parser builds.
\<close>

datatype cell = CStr string | CNum rat | CNaN

datatype dtype = Int64 | Float64 | Object

record series =
  dtype :: dtype
  cells :: "cell list"

record frame =
  nrows :: nat
  columns :: "(string \<times> series) list"

datatype error = FileNotFoundError string | KeyError string | ValueError string | OtherError string

definition object_series :: "cell list \<Rightarrow> series" where
  "object_series cs = \<lparr>dtype = Object, cells = cs\<rparr>"

definition column_names :: "frame \<Rightarrow> string list" where
  "column_names df = map fst (columns df)"

text \<open>\<^verbatim>\<open>df[name]\<close> as a read: \<^verbatim>\<open>KeyError\<close> when there is no such column.\<close>

definition getcol :: "frame \<Rightarrow> string \<Rightarrow> error + series" where
  "getcol df name = (case map_of (columns df) name of
                       None \<Rightarrow> Inl (KeyError name)
                     | Some s \<Rightarrow> Inr s)"

text \<open>\<^verbatim>\<open>df[name] = s\<close> for a column that exists: replaced in place.\<close>

definition setcol :: "frame \<Rightarrow> string \<Rightarrow> series \<Rightarrow> frame" where
  "setcol df name s =
     df\<lparr>columns := map (\<lambda>(n, x). if n = name then (n, s) else (n, x)) (columns df)\<rparr>"

subsection \<open>\<^verbatim>\<open>fillna('')\<close> and \<^verbatim>\<open>replace(0.0, '')\<close>\<close>

text \<open>
  Both act column by column. A column in which nothing is replaced is returned as it is;
  a column that receives the empty string becomes an object column.
\<close>

fun fillna_cell :: "cell \<Rightarrow> cell" where
  "fillna_cell CNaN = CStr []"
| "fillna_cell c = c"

definition fillna_series :: "series \<Rightarrow> series" where
  "fillna_series s =
     (if CNaN \<in> set (cells s) then \<lparr>dtype = Object, cells = map fillna_cell (cells s)\<rparr> else s)"

definition fillna :: "frame \<Rightarrow> frame" where
  "fillna df = df\<lparr>columns := map (\<lambda>(n, s). (n, fillna_series s)) (columns df)\<rparr>"

fun replace_zero_cell :: "cell \<Rightarrow> cell" where
  "replace_zero_cell (CNum x) = (if x = 0 then CStr [] else CNum x)"
| "replace_zero_cell c = c"

definition replace_zero_series :: "series \<Rightarrow> series" where
  "replace_zero_series s =
     (if CNum 0 \<in> set (cells s) then \<lparr>dtype = Object, cells = map replace_zero_cell (cells s)\<rparr>
      else s)"

definition replace_zero :: "frame \<Rightarrow> frame" where
  "replace_zero df = df\<lparr>columns := map (\<lambda>(n, s). (n, replace_zero_series s)) (columns df)\<rparr>"

text \<open>The normalization of \<^verbatim>\<open>_test_parser\<close>, applied to both sides.\<close>

definition normalize_frame :: "frame \<Rightarrow> frame" where
  "normalize_frame df = replace_zero (fillna df)"

subsection \<open>\<^verbatim>\<open>equals\<close>\<close>

text \<open>
  \<^verbatim>\<open>Series.equals\<close> and \<^verbatim>\<open>DataFrame.equals\<close>: the same shape and labels, the same dtype
  column by column, and the same cells, a missing value being equal to a missing value
  at the same place.
\<close>

fun cell_equal :: "cell \<Rightarrow> cell \<Rightarrow> bool" where
  "cell_equal CNaN CNaN = True"
| "cell_equal (CStr a) (CStr b) = (a = b)"
| "cell_equal (CNum x) (CNum y) = (x = y)"
| "cell_equal _ _ = False"

definition series_equals :: "series \<Rightarrow> series \<Rightarrow> bool" where
  "series_equals a b = (dtype a = dtype b \<and> list_all2 cell_equal (cells a) (cells b))"

definition frame_equals :: "frame \<Rightarrow> frame \<Rightarrow> bool" where
  "frame_equals a b =
     (nrows a = nrows b \<and> column_names a = column_names b \<and>
      list_all2 series_equals (map snd (columns a)) (map snd (columns b)))"

subsection \<open>The library's conversions\<close>

text \<open>
  What \<^verbatim>\<open>pd.to_datetime(..., format='%d-%m-%Y')\<close> followed by \<^verbatim>\<open>.dt.strftime('%d-%m-%Y')\<close>
  makes of one string (\<open>None\<close> when \<^verbatim>\<open>to_datetime\<close> raises), and what
  \<^verbatim>\<open>pd.to_numeric(..., errors='coerce')\<close> makes of an object column, are the library's and
  are parameters of the model.
\<close>

record pandas =
  to_datetime_strftime :: "string \<Rightarrow> string option"
  to_numeric_object :: "cell list \<Rightarrow> series"

text \<open>
  On a column: a missing date stays missing, a number does not match the format, and the
  first cell that does not convert raises. The result is an object column of strings.
\<close>

fun date_cell :: "pandas \<Rightarrow> cell \<Rightarrow> cell option" where
  "date_cell lib (CStr d) = map_option CStr (to_datetime_strftime lib d)"
| "date_cell lib CNaN = Some CNaN"
| "date_cell lib (CNum x) = None"

definition to_datetime_series :: "pandas \<Rightarrow> series \<Rightarrow> error + series" where
  "to_datetime_series lib s =
     (case those (map (date_cell lib) (cells s)) of
        None \<Rightarrow> Inl (ValueError ''time data does not match format'')
      | Some cs \<Rightarrow> Inr (object_series cs))"

text \<open>
  A cell of a Date column that the date conversion returns as it found it: a missing value,
  or a string that \<^verbatim>\<open>to_datetime\<close> accepts and \<^verbatim>\<open>strftime\<close> writes back unchanged.
\<close>

definition date_round_trip :: "pandas \<Rightarrow> cell \<Rightarrow> bool" where
  "date_round_trip lib c =
     (case c of
        CStr d \<Rightarrow> to_datetime_strftime lib d = Some d
      | CNum x \<Rightarrow> False
      | CNaN \<Rightarrow> True)"

text \<open>A numeric column is returned as it is; an object column is converted by the library.\<close>

definition to_numeric_coerce :: "pandas \<Rightarrow> series \<Rightarrow> series" where
  "to_numeric_coerce lib s = (if dtype s = Object then to_numeric_object lib (cells s) else s)"

section \<open>The generated parser\<close>

text \<open>
  The reference CSV beside the document (\<^verbatim>\<open>expected_result.csv\<close>, else \<^verbatim>\<open>result.csv\<close>):
  \<open>None\<close> when neither file exists, otherwise what \<^verbatim>\<open>pd.read_csv\<close> makes of it.
\<close>

type_synonym csv_file = "(error + frame) option"

definition read_csv :: "csv_file \<Rightarrow> error + frame" where
  "read_csv csv = (case csv of
                     None \<Rightarrow> Inl (FileNotFoundError ''No such file or directory'')
                   | Some r \<Rightarrow> r)"

definition fallback_to_csv :: "pandas \<Rightarrow> csv_file \<Rightarrow> error + frame" where
  "fallback_to_csv lib csv =
     (case csv of
        None \<Rightarrow> Inl (FileNotFoundError ''Expected CSV file not found'')
      | Some (Inl e) \<Rightarrow> Inl e
      | Some (Inr df) \<Rightarrow>
          (case getcol df ''Date'' of Inl e \<Rightarrow> Inl e | Inr date \<Rightarrow>
          (case to_datetime_series lib date of Inl e \<Rightarrow> Inl e | Inr date' \<Rightarrow>
          (let df1 = setcol df ''Date'' date' in
          (case getcol df1 ''Debit Amt'' of Inl e \<Rightarrow> Inl e | Inr debit \<Rightarrow>
          (let df2 = setcol df1 ''Debit Amt'' (fillna_series (to_numeric_coerce lib debit)) in
          (case getcol df2 ''Credit Amt'' of Inl e \<Rightarrow> Inl e | Inr credit \<Rightarrow>
          (let df3 = setcol df2 ''Credit Amt'' (fillna_series (to_numeric_coerce lib credit)) in
          (case getcol df3 ''Balance'' of Inl e \<Rightarrow> Inl e | Inr balance \<Rightarrow>
             Inr (setcol df3 ''Balance'' (to_numeric_coerce lib balance)))))))))))"

text \<open>
  \<^verbatim>\<open>pd.DataFrame(transactions)\<close> for a non-empty list, with the four conversions and the
  two \<^verbatim>\<open>fillna('')\<close> of \<^verbatim>\<open>parse\<close> applied. Only the date conversion can raise.
\<close>

definition typed_frame :: "pandas \<Rightarrow> transaction list \<Rightarrow> error + frame" where
  "typed_frame lib ts =
     (case to_datetime_series lib (object_series (map (\<lambda>t. CStr (Date t)) ts)) of
        Inl e \<Rightarrow> Inl e
      | Inr date \<Rightarrow>
          Inr \<lparr>nrows = length ts,
               columns =
                 [(''Date'', date),
                  (''Description'', object_series (map (\<lambda>t. CStr (Description t)) ts)),
                  (''Debit Amt'',
                     fillna_series (to_numeric_coerce lib
                       (object_series (map (\<lambda>t. CStr (Debit_Amt t)) ts)))),
                  (''Credit Amt'',
                     fillna_series (to_numeric_coerce lib
                       (object_series (map (\<lambda>t. CStr (Credit_Amt t)) ts)))),
                  (''Balance'',
                     to_numeric_coerce lib
                       (object_series (map (\<lambda>t. CStr (Balance t)) ts)))]\<rparr>)"

text \<open>
  \<^verbatim>\<open>parse(pdf_path)\<close>. Its inputs from outside: the result of the text extraction, whether
  writing \<^verbatim>\<open>results.csv\<close> fails, and the reference CSV. Every exception of the \<^verbatim>\<open>try\<close>
  block, and an empty transaction list, lead to the fallback.
\<close>

definition parse :: "pandas \<Rightarrow> string list \<Rightarrow> error + string \<Rightarrow> error option \<Rightarrow> csv_file \<Rightarrow> error + frame" where
  "parse lib keywords extracted save_error csv =
     (case extracted of
        Inl e \<Rightarrow> fallback_to_csv lib csv
      | Inr text \<Rightarrow>
          (let transactions = parse_transactions keywords text in
           if transactions = [] then fallback_to_csv lib csv
           else (case typed_frame lib transactions of
                   Inl e \<Rightarrow> fallback_to_csv lib csv
                 | Inr df \<Rightarrow>
                     (case save_error of
                        Some e \<Rightarrow> fallback_to_csv lib csv
                      | None \<Rightarrow> Inr df))))"

section \<open>The Reference Comparator\<close>

text \<open>
  The comparison of \<^verbatim>\<open>_test_parser\<close> on the two frames: the exact test, then, only when
  it fails, the test of the core data, a chain of \<^verbatim>\<open>and\<close> evaluated left to right, in
  which reading a column that does not exist raises.
\<close>

definition core_match :: "frame \<Rightarrow> frame \<Rightarrow> error + bool" where
  "core_match result_df expected_df =
     (if nrows result_df \<noteq> nrows expected_df then Inr False
      else if column_names result_df \<noteq> column_names expected_df then Inr False
      else (case getcol result_df ''Date'' of Inl e \<Rightarrow> Inl e | Inr rd \<Rightarrow>
           (case getcol expected_df ''Date'' of Inl e \<Rightarrow> Inl e | Inr ed \<Rightarrow>
            if \<not> series_equals rd ed then Inr False
            else (case getcol result_df ''Balance'' of Inl e \<Rightarrow> Inl e | Inr rb \<Rightarrow>
                 (case getcol expected_df ''Balance'' of Inl e \<Rightarrow> Inl e | Inr eb \<Rightarrow>
                    Inr (series_equals rb eb))))))"

definition compare_frames :: "frame \<Rightarrow> frame \<Rightarrow> error + bool" where
  "compare_frames result_df expected_df =
     (let r = normalize_frame result_df;
          e = normalize_frame expected_df;
          are_equal = frame_equals r e
      in if \<not> are_equal
         then (case core_match r e of
                 Inl err \<Rightarrow> Inl err
               | Inr c \<Rightarrow> if c then Inr True else Inr False)
         else Inr True)"

text \<open>
  \<^verbatim>\<open>_test_parser\<close>: the value returned and the error it appends to the error log, if any.
  Its inputs are the result of importing and running the generated parser and the result
  of reading the reference CSV; every exception is caught and gives \<open>False\<close>.
\<close>

definition test_parser :: "error + frame \<Rightarrow> error + frame \<Rightarrow> bool \<times> error option" where
  "test_parser parsed expected =
     (case parsed of
        Inl e \<Rightarrow> (False, Some e)
      | Inr result_df \<Rightarrow>
          (case expected of
             Inl e \<Rightarrow> (False, Some e)
           | Inr expected_df \<Rightarrow>
               (case compare_frames result_df expected_df of
                  Inl e \<Rightarrow> (False, Some e)
                | Inr b \<Rightarrow> (b, None))))"

text \<open>
  The lenient criterion as the specification words it, for comparison with
  \<open>core_match\<close>: equal row counts, equal column lists, and the Date and the Balance
  columns equal element by element.
\<close>

definition elementwise_equal :: "series \<Rightarrow> series \<Rightarrow> bool" where
  "elementwise_equal a b = list_all2 cell_equal (cells a) (cells b)"

definition spec_core_match :: "frame \<Rightarrow> frame \<Rightarrow> bool" where
  "spec_core_match r e =
     (nrows r = nrows e \<and> column_names r = column_names e \<and>
      (case (getcol r ''Date'', getcol e ''Date'') of
         (Inr a, Inr b) \<Rightarrow> elementwise_equal a b
       | _ \<Rightarrow> False) \<and>
      (case (getcol r ''Balance'', getcol e ''Balance'') of
         (Inr a, Inr b) \<Rightarrow> elementwise_equal a b
       | _ \<Rightarrow> False))"

section \<open>The Generation/Retry Driver\<close>

text \<open>
  \<^verbatim>\<open>AgentState\<close>, without the generated code text. An entry of the error log is kept as
  the data its message is formatted from: \<^verbatim>\<open>Error in attempt {attempt}: {e}\<close> in \<^verbatim>\<open>run\<close>
  and \<^verbatim>\<open>Parser test failed with error: {e}\<close> in \<^verbatim>\<open>_test_parser\<close>.
\<close>

datatype log_entry = Error_in_attempt int error | Parser_test_failed error

record agent_state =
  target_bank :: string
  pdf_path :: string
  csv_path :: string
  parser_path :: string
  attempt :: int
  max_attempts :: int
  success :: bool
  error_log :: "log_entry list"

text \<open>The state the constructor builds: \<^verbatim>\<open>attempt = 1\<close>, \<^verbatim>\<open>max_attempts = 3\<close>.\<close>

definition initial_state :: "string \<Rightarrow> string \<Rightarrow> string \<Rightarrow> string \<Rightarrow> agent_state" where
  "initial_state bank pdf csv parser =
     \<lparr>target_bank = bank, pdf_path = pdf, csv_path = csv, parser_path = parser,
      attempt = 1, max_attempts = 3, success = False, error_log = []\<rparr>"

text \<open>
  What one cycle finds outside the program: the reference CSV, whether the document
  exists, whether writing the parser file or importing it fails, what the text extraction
  gives, and whether writing the results file fails.
\<close>

record world =
  csv_file :: csv_file
  pdf_exists :: bool
  write_error :: "error option"
  import_error :: "error option"
  extracted :: "error + string"
  save_error :: "error option"

definition analyze_data :: "agent_state \<Rightarrow> world \<Rightarrow> error + unit" where
  "analyze_data st w =
     (case csv_file w of
        None \<Rightarrow> Inl (FileNotFoundError (''CSV file not found: '' @ csv_path st))
      | Some (Inl e) \<Rightarrow> Inl e
      | Some (Inr expected_df) \<Rightarrow>
          if \<not> pdf_exists w
          then Inl (FileNotFoundError (''PDF file not found: '' @ pdf_path st))
          else Inr ())"

text \<open>The template is chosen by the bank name; the two templates differ in the keyword list.\<close>

definition template_keywords :: "string \<Rightarrow> string list" where
  "template_keywords bank = (if bank = ''icici'' then icici_keywords else generic_keywords)"

definition generate_parser :: "agent_state \<Rightarrow> world \<Rightarrow> error + unit" where
  "generate_parser st w =
     (case read_csv (csv_file w) of
        Inl e \<Rightarrow> Inl e
      | Inr expected_df \<Rightarrow>
          (case write_error w of
             Some e \<Rightarrow> Inl e
           | None \<Rightarrow> Inr ()))"

text \<open>The \<^verbatim>\<open>_test_parser\<close> step of a cycle: import, \<^verbatim>\<open>parse\<close>, \<^verbatim>\<open>read_csv\<close>, compare.\<close>

definition run_test :: "pandas \<Rightarrow> agent_state \<Rightarrow> world \<Rightarrow> bool \<times> error option" where
  "run_test lib st w =
     test_parser
       (case import_error w of
          Some e \<Rightarrow> Inl e
        | None \<Rightarrow> parse lib (template_keywords (target_bank st)) (extracted w) (save_error w)
                    (csv_file w))
       (read_csv (csv_file w))"

text \<open>
  The body of the \<^verbatim>\<open>try\<close> in \<^verbatim>\<open>run\<close>: an exception of the first two steps, or the
  outcome of the test.
\<close>

definition cycle :: "pandas \<Rightarrow> agent_state \<Rightarrow> world \<Rightarrow> error + (bool \<times> error option)" where
  "cycle lib st w =
     (case analyze_data st w of
        Inl e \<Rightarrow> Inl e
      | Inr _ \<Rightarrow>
          (case generate_parser st w of
             Inl e \<Rightarrow> Inl e
           | Inr _ \<Rightarrow> Inr (run_test lib st w)))"

definition log_test_error :: "error option \<Rightarrow> log_entry list" where
  "log_test_error logged = (case logged of None \<Rightarrow> [] | Some e \<Rightarrow> [Parser_test_failed e])"

text \<open>
  The loop of \<^verbatim>\<open>run\<close>. The world of a cycle is given by the attempt number the cycle runs
  under. Beside the final state the function returns the number of cycles it executed,
  which the source does not keep.
\<close>

function run_loop :: "pandas \<Rightarrow> (int \<Rightarrow> world) \<Rightarrow> agent_state \<Rightarrow> agent_state \<times> nat" where
  "run_loop lib env st =
     (if attempt st \<le> max_attempts st \<and> \<not> success st
      then (case cycle lib st (env (attempt st)) of
              Inl e \<Rightarrow>
                (let (st', n) =
                   run_loop lib env
                     (st\<lparr>error_log := error_log st @ [Error_in_attempt (attempt st) e],
                         attempt := attempt st + 1\<rparr>)
                 in (st', Suc n))
            | Inr (passed, logged) \<Rightarrow>
                if passed
                then (st\<lparr>error_log := error_log st @ log_test_error logged, success := True\<rparr>, 1)
                else (let (st', n) =
                        run_loop lib env
                          (st\<lparr>error_log := error_log st @ log_test_error logged,
                              attempt := attempt st + 1\<rparr>)
                      in (st', Suc n)))
      else (st, 0))"
  by pat_completeness auto
termination
  by (relation "measure (\<lambda>(lib, env, st). nat (max_attempts st + 1 - attempt st))") auto

definition run :: "pandas \<Rightarrow> (int \<Rightarrow> world) \<Rightarrow> agent_state \<Rightarrow> agent_state" where
  "run lib env st = fst (run_loop lib env st)"

text \<open>\<^verbatim>\<open>main\<close> after the run: the exit code and the diagnostics printed on failure.\<close>

definition main_exit :: "agent_state \<Rightarrow> int \<times> log_entry list" where
  "main_exit st = (if success st then (0, []) else (1, error_log st))"

text \<open>
  What every run of the loop establishes, between the state it starts from and its result:
  the bound on the cycles, the exit condition, the account of the attempt counter, and
  the growth of the error log.
\<close>

definition loop_post :: "agent_state \<Rightarrow> agent_state \<times> nat \<Rightarrow> bool" where
  "loop_post st r =
     (case r of (st', n) \<Rightarrow>
        n \<le> nat (max_attempts st + 1 - attempt st) \<and>
        max_attempts st' = max_attempts st \<and>
        (success st' \<or> max_attempts st < attempt st') \<and>
        attempt st' = attempt st + int n - (if success st' \<and> \<not> success st then 1 else 0) \<and>
        (success st \<longrightarrow> success st') \<and>
        (\<exists>new. error_log st' = error_log st @ new \<and> length new \<le> n))"

section \<open>A library behaviour and tables for concrete runs\<close>

text \<open>
  To run the model on a concrete input the two library parameters need values. The sample
  below accepts a date of the zero-padded shape with a day from 01 to 31 and a month from
  01 to 12 and returns it unchanged, and converts an unsigned decimal literal to its
  value and every other string to a missing value. It is used only on inputs on which
  the library does the same.
\<close>

definition digit_val :: "char \<Rightarrow> nat" where
  "digit_val c = (case map_of (zip ''0123456789'' [0, 1, 2, 3, 4, 5, 6, 7, 8, 9]) c of
                    None \<Rightarrow> 0
                  | Some n \<Rightarrow> n)"

definition digits_value :: "string \<Rightarrow> nat" where
  "digits_value ds = foldl (\<lambda>a c. 10 * a + digit_val c) 0 ds"

definition sample_date :: "string \<Rightarrow> string option" where
  "sample_date s =
     (if length s = 10 \<and> matches_at date_pattern s \<and>
         1 \<le> digits_value (take 2 s) \<and> digits_value (take 2 s) \<le> 31 \<and>
         1 \<le> digits_value (take 2 (drop 3 s)) \<and> digits_value (take 2 (drop 3 s)) \<le> 12
      then Some s else None)"

definition plain_decimal :: "string \<Rightarrow> rat option" where
  "plain_decimal s =
     (let ip = takeWhile is_digit s; rest = dropWhile is_digit s
      in if ip = [] then None
         else (case rest of
                 [] \<Rightarrow> Some (of_nat (digits_value ip))
               | p # fp \<Rightarrow>
                   if is_dot p \<and> fp \<noteq> [] \<and> list_all is_digit fp
                   then Some (of_nat (digits_value (ip @ fp)) / 10 ^ length fp)
                   else None))"

fun sample_numeric_cell :: "cell \<Rightarrow> cell" where
  "sample_numeric_cell (CStr s) = (case plain_decimal s of None \<Rightarrow> CNaN | Some x \<Rightarrow> CNum x)"
| "sample_numeric_cell c = c"

definition sample_pandas :: pandas where
  "sample_pandas =
     \<lparr>to_datetime_strftime = sample_date,
      to_numeric_object = (\<lambda>cs. \<lparr>dtype = Float64, cells = map sample_numeric_cell cs\<rparr>)\<rparr>"

text \<open>
  The table \<^verbatim>\<open>parse\<close> produces from the line
  \<^verbatim>\<open>01-01-2024 Salary Credit 5000.00 10000.00\<close>.
\<close>

definition salary_result :: frame where
  "salary_result =
     \<lparr>nrows = 1,
      columns =
        [(''Date'', \<lparr>dtype = Object, cells = [CStr ''01-01-2024'']\<rparr>),
         (''Description'', \<lparr>dtype = Object, cells = [CStr ''Salary Credit'']\<rparr>),
         (''Debit Amt'', \<lparr>dtype = Object, cells = [CStr []]\<rparr>),
         (''Credit Amt'', \<lparr>dtype = Float64, cells = [CNum 5000]\<rparr>),
         (''Balance'', \<lparr>dtype = Float64, cells = [CNum 10000]\<rparr>)]\<rparr>"

text \<open>
  What \<^verbatim>\<open>read_csv\<close> makes of a reference file with the one row
  \<^verbatim>\<open>01-01-2024,SALARY,,5000,10000\<close>: the amounts are written without decimals, so their
  columns are integer columns; the empty debit column is a float column of a missing value.
\<close>

definition salary_reference_int :: frame where
  "salary_reference_int =
     \<lparr>nrows = 1,
      columns =
        [(''Date'', \<lparr>dtype = Object, cells = [CStr ''01-01-2024'']\<rparr>),
         (''Description'', \<lparr>dtype = Object, cells = [CStr ''SALARY'']\<rparr>),
         (''Debit Amt'', \<lparr>dtype = Float64, cells = [CNaN]\<rparr>),
         (''Credit Amt'', \<lparr>dtype = Int64, cells = [CNum 5000]\<rparr>),
         (''Balance'', \<lparr>dtype = Int64, cells = [CNum 10000]\<rparr>)]\<rparr>"

text \<open>The same row written with decimals: \<^verbatim>\<open>01-01-2024,SALARY,,5000.00,10000.00\<close>.\<close>

definition salary_reference :: frame where
  "salary_reference =
     \<lparr>nrows = 1,
      columns =
        [(''Date'', \<lparr>dtype = Object, cells = [CStr ''01-01-2024'']\<rparr>),
         (''Description'', \<lparr>dtype = Object, cells = [CStr ''SALARY'']\<rparr>),
         (''Debit Amt'', \<lparr>dtype = Float64, cells = [CNaN]\<rparr>),
         (''Credit Amt'', \<lparr>dtype = Float64, cells = [CNum 5000]\<rparr>),
         (''Balance'', \<lparr>dtype = Float64, cells = [CNum 10000]\<rparr>)]\<rparr>"

text \<open>
  A reference whose date has the shape of a date but month 13:
  \<^verbatim>\<open>31-13-2024,SALARY,,5000.00,10000.00\<close>.
\<close>

definition month13_reference :: frame where
  "month13_reference =
     \<lparr>nrows = 1,
      columns =
        [(''Date'', \<lparr>dtype = Object, cells = [CStr ''31-13-2024'']\<rparr>),
         (''Description'', \<lparr>dtype = Object, cells = [CStr ''SALARY'']\<rparr>),
         (''Debit Amt'', \<lparr>dtype = Float64, cells = [CNaN]\<rparr>),
         (''Credit Amt'', \<lparr>dtype = Float64, cells = [CNum 5000]\<rparr>),
         (''Balance'', \<lparr>dtype = Float64, cells = [CNum 10000]\<rparr>)]\<rparr>"

text \<open>A reference with another balance: \<^verbatim>\<open>01-01-2024,SALARY,,5000.00,9999.00\<close>.\<close>

definition other_balance_reference :: frame where
  "other_balance_reference =
     \<lparr>nrows = 1,
      columns =
        [(''Date'', \<lparr>dtype = Object, cells = [CStr ''01-01-2024'']\<rparr>),
         (''Description'', \<lparr>dtype = Object, cells = [CStr ''SALARY'']\<rparr>),
         (''Debit Amt'', \<lparr>dtype = Float64, cells = [CNaN]\<rparr>),
         (''Credit Amt'', \<lparr>dtype = Float64, cells = [CNum 5000]\<rparr>),
         (''Balance'', \<lparr>dtype = Float64, cells = [CNum 9999]\<rparr>)]\<rparr>"

text \<open>
  Two worlds that stay the same over all cycles. In the first the reference CSV is
  missing. In the second everything is in place, the document holds the salary line, and
  the reference states another balance. The third is the second with the right reference.
\<close>

definition missing_csv_world :: world where
  "missing_csv_world =
     \<lparr>csv_file = None, pdf_exists = True, write_error = None, import_error = None,
      extracted = Inr ''01-01-2024 Salary Credit 5000.00 10000.00'', save_error = None\<rparr>"

definition mismatch_world :: world where
  "mismatch_world =
     \<lparr>csv_file = Some (Inr other_balance_reference), pdf_exists = True, write_error = None,
      import_error = None,
      extracted = Inr ''01-01-2024 Salary Credit 5000.00 10000.00'', save_error = None\<rparr>"

definition matching_world :: world where
  "matching_world =
     \<lparr>csv_file = Some (Inr salary_reference), pdf_exists = True, write_error = None,
      import_error = None,
      extracted = Inr ''01-01-2024 Salary Credit 5000.00 10000.00'', save_error = None\<rparr>"

text \<open>A run that meets a missing reference first, then a wrong one, then the right one.\<close>

definition changing_env :: "int \<Rightarrow> world" where
  "changing_env k =
     (if k = 1 then missing_csv_world else if k = 2 then mismatch_world else matching_world)"

definition icici_state :: agent_state where
  "icici_state =
     initial_state ''icici'' ''data/icici/icici sample.pdf'' ''data/icici/result.csv''
       ''custom_parsers/icici_parser.py''"

text \<open>A world in which the reference is in place and the document is missing.\<close>

definition missing_pdf_world :: world where
  "missing_pdf_world =
     \<lparr>csv_file = Some (Inr salary_reference), pdf_exists = False, write_error = None,
      import_error = None, extracted = Inl (FileNotFoundError ''No such file or directory''),
      save_error = None\<rparr>"

section \<open>Properties of the line parser\<close>

subsection \<open>Auxiliary facts\<close>

lemma classify_parts_filter:
  "classify_parts parts ds ams =
     (ds @ filter (\<lambda>p. \<not> amount_match p) parts,
      ams @ map strip_commas (filter amount_match parts))"
  by (induction parts arbitrary: ds ams) auto

lemma amount_match_has_dot:
  assumes "amount_match part"
  shows "CHR ''.'' \<in> set part"
proof -
  from assms have m: "matches_at [is_dot, is_digit, is_digit] (dropWhile is_digit_or_comma part)"
    by (simp add: amount_match_def)
  then obtain c cs where d: "dropWhile is_digit_or_comma part = c # cs"
    by (cases "dropWhile is_digit_or_comma part") auto
  with m have "c = CHR ''.''" by (simp add: is_dot_def)
  moreover have "c \<in> set (dropWhile is_digit_or_comma part)" using d by simp
  ultimately show ?thesis using set_dropWhileD by fastforce
qed

lemma strip_commas_amount_nonempty:
  "amount_match part \<Longrightarrow> strip_commas part \<noteq> []"
proof -
  assume "amount_match part"
  then have "CHR ''.'' \<in> set part" by (rule amount_match_has_dot)
  then have "CHR ''.'' \<in> set (strip_commas part)" by (simp add: strip_commas_def)
  then show ?thesis by auto
qed

lemma line_tokens_Some:
  assumes "line_tokens raw = Some (date, description, amounts)"
  shows "\<exists>parts. split_ws (strip raw) = date # parts \<and> 2 \<le> length parts \<and>
           description = join_sp (filter (\<lambda>p. \<not> amount_match p) parts) \<and>
           amounts = map strip_commas (filter amount_match parts)"
  using assms unfolding line_tokens_def Let_def classify_parts_filter
  by (auto split: if_splits list.splits simp del: filter.simps)

lemma line_tokens_amounts_nonempty:
  assumes "line_tokens raw = Some (date, description, amounts)"
  shows "\<forall>a \<in> set amounts. a \<noteq> []"
proof -
  from assms obtain parts where "amounts = map strip_commas (filter amount_match parts)"
    using line_tokens_Some by blast
  then show ?thesis using strip_commas_amount_nonempty by auto
qed

lemma amount_match_iff:
  "amount_match part \<longleftrightarrow>
     (\<exists>run d1 d2 rest. part = run @ [CHR ''.'', d1, d2] @ rest \<and> run \<noteq> [] \<and>
        list_all is_digit_or_comma run \<and> is_digit d1 \<and> is_digit d2)"
proof
  assume a: "amount_match part"
  let ?run = "takeWhile is_digit_or_comma part"
  let ?tl = "dropWhile is_digit_or_comma part"
  from a have r: "?run \<noteq> []" and m: "matches_at [is_dot, is_digit, is_digit] ?tl"
    by (simp_all add: amount_match_def)
  from m obtain c d1 d2 rest where t: "?tl = c # d1 # d2 # rest"
    by (cases ?tl; cases "tl ?tl"; cases "tl (tl ?tl)") auto
  with m have c: "c = CHR ''.''" and d: "is_digit d1" "is_digit d2"
    by (simp_all add: is_dot_def)
  have "part = ?run @ ?tl" by simp
  with t c have "part = ?run @ [CHR ''.'', d1, d2] @ rest" by simp
  moreover have "list_all is_digit_or_comma ?run"
    by (simp add: list_all_iff) (meson set_takeWhileD)
  ultimately show "\<exists>run d1 d2 rest. part = run @ [CHR ''.'', d1, d2] @ rest \<and> run \<noteq> [] \<and>
        list_all is_digit_or_comma run \<and> is_digit d1 \<and> is_digit d2"
    using r d by blast
next
  assume "\<exists>run d1 d2 rest. part = run @ [CHR ''.'', d1, d2] @ rest \<and> run \<noteq> [] \<and>
        list_all is_digit_or_comma run \<and> is_digit d1 \<and> is_digit d2"
  then obtain run d1 d2 rest where p: "part = run @ [CHR ''.'', d1, d2] @ rest"
    and r: "run \<noteq> []" and a: "list_all is_digit_or_comma run" and d: "is_digit d1" "is_digit d2"
    by blast
  have nd: "\<not> is_digit_or_comma (CHR ''.'')"
    by (simp add: is_digit_or_comma_def is_digit_def)
  from a have all: "\<forall>x \<in> set run. is_digit_or_comma x" by (simp add: list_all_iff)
  have tw: "takeWhile is_digit_or_comma part = run"
    using p all nd by (simp add: takeWhile_append2)
  have dw: "dropWhile is_digit_or_comma part = [CHR ''.'', d1, d2] @ rest"
    using p all nd by (simp add: dropWhile_append2)
  show "amount_match part"
    using tw dw r d by (simp add: amount_match_def is_dot_def)
qed

lemma matches_at_append: "matches_at ps s \<Longrightarrow> matches_at ps (s @ t)"
  by (induction ps s rule: matches_at.induct) auto

lemma date_search_append_right: "date_search s \<Longrightarrow> date_search (s @ t)"
proof (induction s)
  case Nil
  then show ?case by simp
next
  case (Cons c cs)
  then show ?case using matches_at_append [of date_pattern "c # cs" t] by auto
qed

lemma date_search_Cons: "date_search s \<Longrightarrow> date_search (c # s)"
  by simp

lemma date_search_append_left: "date_search s \<Longrightarrow> date_search (t @ s)"
  by (induction t) (simp_all add: date_search_Cons del: date_search.simps)

lemma date_search_strip:
  assumes "date_search (strip l)"
  shows "date_search l"
proof -
  let ?m = "dropWhile is_space l"
  have "rev (dropWhile is_space (rev ?m)) @ rev (takeWhile is_space (rev ?m)) = ?m"
    by (metis rev_append rev_rev_ident takeWhile_dropWhile_id)
  then have "?m = strip l @ rev (takeWhile is_space (rev ?m))"
    by (simp add: strip_def)
  moreover have "date_search (strip l @ rev (takeWhile is_space (rev ?m)))"
    using assms by (rule date_search_append_right)
  ultimately have "date_search ?m" by simp
  then have "date_search (takeWhile is_space l @ ?m)" by (rule date_search_append_left)
  then show ?thesis by simp
qed

lemma split_on_prefix:
  "split_on sep s = l # ls \<Longrightarrow> \<exists>bs. s = l @ bs"
  by (induction s arbitrary: l ls) (auto split: if_splits list.splits)

lemma split_on_date_search:
  "line \<in> set (split_on sep s) \<Longrightarrow> date_search line \<Longrightarrow> date_search s"
proof (induction s arbitrary: line)
  case Nil
  then show ?case by simp
next
  case (Cons c cs)
  note IH = Cons.IH and mem = Cons.prems(1) and ds = Cons.prems(2)
  show ?case
  proof (cases "c = sep")
    case True
    with mem ds consider "line = []" | "line \<in> set (split_on sep cs)" by auto
    then show ?thesis
    proof cases
      case 1
      with ds show ?thesis by simp
    next
      case 2
      with IH ds have "date_search cs" by blast
      then show ?thesis by simp
    qed
  next
    case False
    show ?thesis
    proof (cases "split_on sep cs")
      case Nil
      with False mem have "line = [c]" by simp
      with ds have "date_search [c]" by simp
      then have "date_search ([c] @ cs)" by (rule date_search_append_right)
      then show ?thesis by simp
    next
      case sp: (Cons l ls)
      with False mem consider "line = c # l" | "line \<in> set ls" by auto
      then show ?thesis
      proof cases
        case 1
        from sp obtain bs where cs: "cs = l @ bs" using split_on_prefix by blast
        from 1 ds have "date_search (c # l)" by simp
        then have "date_search ((c # l) @ bs)" by (rule date_search_append_right)
        with cs show ?thesis by simp
      next
        case 2
        with sp have "line \<in> set (split_on sep cs)" by simp
        with IH ds have "date_search cs" by blast
        then show ?thesis by simp
      qed
    qed
  qed
qed

lemma parse_lines_all_None:
  "\<forall>l \<in> set ls. parse_line keywords l = None \<Longrightarrow> parse_lines keywords ls = []"
  by (induction ls) auto

lemma parse_lines_member:
  "t \<in> set (parse_lines keywords ls) \<Longrightarrow> \<exists>l \<in> set ls. parse_line keywords l = Some t"
  by (induction ls) (auto split: option.splits)

lemma parse_line_no_date: "\<not> date_search line \<Longrightarrow> parse_line keywords line = None"
  using date_search_strip [of line] by (auto simp: parse_line_def line_tokens_def Let_def)

lemma parse_line_few_tokens:
  "length (split_ws (strip line)) < 3 \<Longrightarrow> parse_line keywords line = None"
  by (auto simp: parse_line_def line_tokens_def Let_def split: list.splits)

subsection \<open>The claims about the line parser\<close>

text \<open>The definitions unfolded to evaluate the parser on a concrete line.\<close>

lemmas parser_eval =
  parse_icici_transactions_def parse_generic_transactions_def parse_transactions_def
  parse_line_def line_tokens_def strip_def is_space_def date_pattern_def is_digit_def
  is_dash_def is_dot_def is_digit_or_comma_def amount_match_def strip_commas_def
  has_keyword_def lower_def lower_char_def starts_with_def icici_keywords_def
  generic_keywords_def

text \<open>
  Claim C1. On an accepted line the fields are assigned by the number of amounts alone.
  One amount: debit when the lower-cased description contains a keyword of the profile,
  credit otherwise, and no balance. Two amounts: the first by the same rule, the second
  is the balance. Three or more: debit, credit, balance in that order, whatever the
  description says, and the amounts after the third play no part. The keyword test is
  spelled out for the two profiles.
\<close>

theorem amount_assignment_by_count:
  assumes "line_tokens raw = Some (date, description, amounts)"
    and "parse_line keywords raw = Some t"
  shows "(case amounts of
            [] \<Rightarrow> False
          | [a0] \<Rightarrow>
              (if has_keyword keywords description
               then Debit_Amt t = a0 \<and> Credit_Amt t = []
               else Debit_Amt t = [] \<and> Credit_Amt t = a0) \<and> Balance t = []
          | [a0, a1] \<Rightarrow>
              (if has_keyword keywords description
               then Debit_Amt t = a0 \<and> Credit_Amt t = []
               else Debit_Amt t = [] \<and> Credit_Amt t = a0) \<and> Balance t = a1
          | a0 # a1 # a2 # rest \<Rightarrow>
              Debit_Amt t = a0 \<and> Credit_Amt t = a1 \<and> Balance t = a2)
       \<and> has_keyword icici_keywords description =
            (contains ''debit'' (lower description) \<or> contains ''withdrawal'' (lower description) \<or>
             contains ''payment'' (lower description) \<or> contains ''purchase'' (lower description))
       \<and> has_keyword generic_keywords description =
            (contains ''debit'' (lower description) \<or> contains ''withdrawal'' (lower description) \<or>
             contains ''payment'' (lower description) \<or> contains ''purchase'' (lower description) \<or>
             contains ''atm'' (lower description) \<or> contains ''card'' (lower description))"
proof -
  have kw: "has_keyword icici_keywords description =
            (contains ''debit'' (lower description) \<or> contains ''withdrawal'' (lower description) \<or>
             contains ''payment'' (lower description) \<or> contains ''purchase'' (lower description))"
    "has_keyword generic_keywords description =
            (contains ''debit'' (lower description) \<or> contains ''withdrawal'' (lower description) \<or>
             contains ''payment'' (lower description) \<or> contains ''purchase'' (lower description) \<or>
             contains ''atm'' (lower description) \<or> contains ''card'' (lower description))"
    by (simp_all add: has_keyword_def icici_keywords_def generic_keywords_def)
  have "(case amounts of
            [] \<Rightarrow> False
          | [a0] \<Rightarrow>
              (if has_keyword keywords description
               then Debit_Amt t = a0 \<and> Credit_Amt t = []
               else Debit_Amt t = [] \<and> Credit_Amt t = a0) \<and> Balance t = []
          | [a0, a1] \<Rightarrow>
              (if has_keyword keywords description
               then Debit_Amt t = a0 \<and> Credit_Amt t = []
               else Debit_Amt t = [] \<and> Credit_Amt t = a0) \<and> Balance t = a1
          | a0 # a1 # a2 # rest \<Rightarrow>
              Debit_Amt t = a0 \<and> Credit_Amt t = a1 \<and> Balance t = a2)"
    using assms
    by (cases "(keywords, description, amounts)" rule: assign_amounts.cases)
       (auto simp: parse_line_def split: if_splits)
  with kw show ?thesis by blast
qed

text \<open>The theorem at a two-amount line of the generic profile.\<close>

theorem amount_assignment_by_count_witness:
  "line_tokens ''02-01-2024 ATM Withdrawal 2000.00 8000.00'' =
     Some (''02-01-2024'', ''ATM Withdrawal'', [''2000.00'', ''8000.00''])
   \<and> parse_line generic_keywords ''02-01-2024 ATM Withdrawal 2000.00 8000.00'' =
     Some \<lparr>Date = ''02-01-2024'', Description = ''ATM Withdrawal'', Debit_Amt = ''2000.00'',
           Credit_Amt = [], Balance = ''8000.00''\<rparr>
   \<and> has_keyword generic_keywords ''ATM Withdrawal''"
proof -
  have h1: "line_tokens ''02-01-2024 ATM Withdrawal 2000.00 8000.00'' =
     Some (''02-01-2024'', ''ATM Withdrawal'', [''2000.00'', ''8000.00''])"
    by (simp add: parser_eval)
  have h2: "parse_line generic_keywords ''02-01-2024 ATM Withdrawal 2000.00 8000.00'' =
     Some \<lparr>Date = ''02-01-2024'', Description = ''ATM Withdrawal'', Debit_Amt = ''2000.00'',
           Credit_Amt = [], Balance = ''8000.00''\<rparr>"
    by (simp add: parser_eval)
  from amount_assignment_by_count [OF h1 h2] h1 h2 show ?thesis
    by (simp split: if_splits)
qed

text \<open>
  Claim C6. A text in which the pattern of two digits, dash, two digits, dash, four digits
  occurs nowhere yields the empty table; a line without the pattern is skipped, and so is
  a line with fewer than three whitespace-separated tokens.
\<close>

theorem no_date_no_records:
  "(\<not> date_search text \<longrightarrow> parse_transactions keywords text = []) \<and>
   (\<not> date_search line \<longrightarrow> parse_line keywords line = None) \<and>
   (length (split_ws (strip short)) < 3 \<longrightarrow> parse_line keywords short = None)"
proof (intro conjI impI)
  assume nd: "\<not> date_search text"
  have "\<forall>l \<in> set (split_on (CHR 0x0A) text). parse_line keywords l = None"
    using nd split_on_date_search parse_line_no_date by blast
  then show "parse_transactions keywords text = []"
    unfolding parse_transactions_def by (rule parse_lines_all_None)
next
  assume "\<not> date_search line"
  then show "parse_line keywords line = None" by (rule parse_line_no_date)
next
  assume "length (split_ws (strip short)) < 3"
  then show "parse_line keywords short = None" by (rule parse_line_few_tokens)
qed

text \<open>The theorem at a two-line text without dates and at a dated line of two tokens.\<close>

theorem no_date_no_records_witness:
  "\<not> date_search (''Statement of account'' @ [CHR 0x0A] @ ''Closing balance 8000.00'')
   \<and> parse_transactions icici_keywords
        (''Statement of account'' @ [CHR 0x0A] @ ''Closing balance 8000.00'') = []
   \<and> \<not> date_search ''Closing balance 8000.00''
   \<and> parse_line icici_keywords ''Closing balance 8000.00'' = None
   \<and> length (split_ws (strip ''01-01-2024 5000.00'')) < 3
   \<and> parse_line icici_keywords ''01-01-2024 5000.00'' = None"
proof -
  have h1: "\<not> date_search (''Statement of account'' @ [CHR 0x0A] @ ''Closing balance 8000.00'')"
    by (simp add: date_pattern_def is_digit_def is_dash_def)
  have h2: "\<not> date_search ''Closing balance 8000.00''"
    by (simp add: date_pattern_def is_digit_def is_dash_def)
  have h3: "length (split_ws (strip ''01-01-2024 5000.00'')) < 3"
    by (simp add: strip_def is_space_def)
  from no_date_no_records [of "''Statement of account'' @ [CHR 0x0A] @ ''Closing balance 8000.00''"
      icici_keywords "''Closing balance 8000.00''" "''01-01-2024 5000.00''"] h1 h2 h3
  show ?thesis by simp
qed

text \<open>
  Claim C8. Every record of the output table has a non-empty description and a non-empty
  debit or credit field: the guard before the append admits no other record.
\<close>

theorem accepted_records_populated:
  assumes "t \<in> set (parse_transactions keywords text)"
  shows "Description t \<noteq> [] \<and> (Debit_Amt t \<noteq> [] \<or> Credit_Amt t \<noteq> [])"
proof -
  from assms obtain l where "parse_line keywords l = Some t"
    unfolding parse_transactions_def using parse_lines_member by blast
  then show ?thesis
    by (auto simp: parse_line_def split: option.splits prod.splits if_splits)
qed

text \<open>The theorem at the record parsed from a salary line.\<close>

theorem accepted_records_populated_witness:
  "\<lparr>Date = ''01-01-2024'', Description = ''Salary Credit'', Debit_Amt = [],
     Credit_Amt = ''5000.00'', Balance = ''10000.00''\<rparr>
     \<in> set (parse_transactions icici_keywords ''01-01-2024 Salary Credit 5000.00 10000.00'')
   \<and> Description \<lparr>Date = ''01-01-2024'', Description = ''Salary Credit'', Debit_Amt = [],
     Credit_Amt = ''5000.00'', Balance = ''10000.00''\<rparr> \<noteq> []"
proof -
  have h: "\<lparr>Date = ''01-01-2024'', Description = ''Salary Credit'', Debit_Amt = [],
     Credit_Amt = ''5000.00'', Balance = ''10000.00''\<rparr>
     \<in> set (parse_transactions icici_keywords ''01-01-2024 Salary Credit 5000.00 10000.00'')"
    by (simp add: parser_eval)
  from accepted_records_populated [OF h] h show ?thesis by simp
qed

text \<open>
  Claim C10. On an accepted line with at most two amounts exactly one of debit and credit
  is populated; both are populated only when the line carries three or more amounts (and
  then they always are).
\<close>

theorem debit_credit_exclusive:
  assumes "line_tokens raw = Some (date, description, amounts)"
    and "parse_line keywords raw = Some t"
  shows "(length amounts \<le> 2 \<longrightarrow> (Debit_Amt t = []) \<noteq> (Credit_Amt t = []))
       \<and> (Debit_Amt t \<noteq> [] \<and> Credit_Amt t \<noteq> [] \<longrightarrow> 3 \<le> length amounts)
       \<and> (3 \<le> length amounts \<longrightarrow> Debit_Amt t \<noteq> [] \<and> Credit_Amt t \<noteq> [])"
proof -
  have ne: "\<forall>a \<in> set amounts. a \<noteq> []"
    using assms(1) by (rule line_tokens_amounts_nonempty)
  show ?thesis
    using assms ne
    by (cases "(keywords, description, amounts)" rule: assign_amounts.cases)
       (auto simp: parse_line_def split: if_splits)
qed

text \<open>The theorem at a two-amount line and at a four-amount line.\<close>

theorem debit_credit_exclusive_witness:
  "line_tokens ''01-01-2024 Salary Credit 5000.00 10000.00'' =
     Some (''01-01-2024'', ''Salary Credit'', [''5000.00'', ''10000.00''])
   \<and> length [''5000.00'', ''10000.00''] \<le> 2
   \<and> parse_line icici_keywords ''01-01-2024 Salary Credit 5000.00 10000.00'' =
     Some \<lparr>Date = ''01-01-2024'', Description = ''Salary Credit'', Debit_Amt = [],
           Credit_Amt = ''5000.00'', Balance = ''10000.00''\<rparr>
   \<and> line_tokens ''03-01-2024 Transfer 10.00 20.00 30.00 40.00'' =
     Some (''03-01-2024'', ''Transfer'', [''10.00'', ''20.00'', ''30.00'', ''40.00''])
   \<and> parse_line icici_keywords ''03-01-2024 Transfer 10.00 20.00 30.00 40.00'' =
     Some \<lparr>Date = ''03-01-2024'', Description = ''Transfer'', Debit_Amt = ''10.00'',
           Credit_Amt = ''20.00'', Balance = ''30.00''\<rparr>
   \<and> 3 \<le> length [''10.00'', ''20.00'', ''30.00'', ''40.00'']"
proof -
  have a1: "line_tokens ''01-01-2024 Salary Credit 5000.00 10000.00'' =
     Some (''01-01-2024'', ''Salary Credit'', [''5000.00'', ''10000.00''])"
    by (simp add: parser_eval)
  have a2: "parse_line icici_keywords ''01-01-2024 Salary Credit 5000.00 10000.00'' =
     Some \<lparr>Date = ''01-01-2024'', Description = ''Salary Credit'', Debit_Amt = [],
           Credit_Amt = ''5000.00'', Balance = ''10000.00''\<rparr>"
    by (simp add: parser_eval)
  have b1: "line_tokens ''03-01-2024 Transfer 10.00 20.00 30.00 40.00'' =
     Some (''03-01-2024'', ''Transfer'', [''10.00'', ''20.00'', ''30.00'', ''40.00''])"
    by (simp add: parser_eval)
  have b2: "parse_line icici_keywords ''03-01-2024 Transfer 10.00 20.00 30.00 40.00'' =
     Some \<lparr>Date = ''03-01-2024'', Description = ''Transfer'', Debit_Amt = ''10.00'',
           Credit_Amt = ''20.00'', Balance = ''30.00''\<rparr>"
    by (simp add: parser_eval)
  from debit_credit_exclusive [OF a1 a2] debit_credit_exclusive [OF b1 b2] a1 a2 b1 b2
  show ?thesis by simp
qed

text \<open>
  Claim C7, as stated, fails: the token \<open>12.345\<close> has three decimal digits, so it is not
  of the shape the specification describes, yet \<^verbatim>\<open>re.match\<close> accepts it (the pattern is
  only required at the start of the token) and the line parser books it as the amount.
\<close>

theorem amount_token_counterexample:
  "amount_match ''12.345'' \<and> \<not> spec_amount_token ''12.345''
   \<and> parse_line icici_keywords ''01-01-2024 Refund 12.345'' =
       Some \<lparr>Date = ''01-01-2024'', Description = ''Refund'', Debit_Amt = [],
             Credit_Amt = ''12.345'', Balance = []\<rparr>"
  by (simp add: parser_eval spec_amount_token_def)

text \<open>
  Claim C7, amended. A token after the date is an amount exactly when it begins with a
  non-empty run of digits and commas, a decimal point and two digits; whatever follows
  is not inspected. The amounts are the matching tokens in order, each with every comma
  removed; the description parts are the other tokens in order.
\<close>

theorem token_classification:
  "classify_parts parts [] [] =
     (filter (\<lambda>p. \<not> amount_match p) parts, map strip_commas (filter amount_match parts))
   \<and> (amount_match part \<longleftrightarrow>
        (\<exists>run d1 d2 rest. part = run @ [CHR ''.'', d1, d2] @ rest \<and> run \<noteq> [] \<and>
           list_all is_digit_or_comma run \<and> is_digit d1 \<and> is_digit d2))
   \<and> strip_commas part = filter (\<lambda>c. c \<noteq> CHR '','') part"
  using amount_match_iff [of part] by (simp add: classify_parts_filter strip_commas_def)

section \<open>Properties of the comparator and of the fallback\<close>

subsection \<open>Auxiliary facts about tables\<close>

text \<open>The definitions unfolded to evaluate the comparison on concrete tables.\<close>

lemmas frame_eval =
  test_parser_def compare_frames_def core_match_def normalize_frame_def fillna_def replace_zero_def
  fillna_series_def replace_zero_series_def frame_equals_def series_equals_def
  column_names_def getcol_def setcol_def object_series_def

lemma fillna_cell_id: "c \<noteq> CNaN \<Longrightarrow> fillna_cell c = c"
  by (cases c) auto

lemma fillna_cell_not_NaN: "fillna_cell c \<noteq> CNaN"
  by (cases c) auto

lemma replace_zero_cell_id: "c \<noteq> CNum 0 \<Longrightarrow> replace_zero_cell c = c"
  by (cases c) auto

lemma replace_zero_cell_not_zero: "replace_zero_cell c \<noteq> CNum 0"
  by (cases c) auto

lemma replace_zero_cell_not_NaN: "c \<noteq> CNaN \<Longrightarrow> replace_zero_cell c \<noteq> CNaN"
  by (cases c) auto

lemma cells_fillna_series: "cells (fillna_series s) = map fillna_cell (cells s)"
proof (cases "CNaN \<in> set (cells s)")
  case True
  then show ?thesis by (simp add: fillna_series_def)
next
  case False
  then have "map fillna_cell (cells s) = cells s"
    by (intro map_idI) (auto intro: fillna_cell_id)
  with False show ?thesis by (simp add: fillna_series_def)
qed

lemma cells_replace_zero_series: "cells (replace_zero_series s) = map replace_zero_cell (cells s)"
proof (cases "CNum 0 \<in> set (cells s)")
  case True
  then show ?thesis by (simp add: replace_zero_series_def)
next
  case False
  then have "map replace_zero_cell (cells s) = cells s"
    by (intro map_idI) (auto intro: replace_zero_cell_id)
  with False show ?thesis by (simp add: replace_zero_series_def)
qed

lemma fillna_series_idem: "fillna_series (fillna_series s) = fillna_series s"
proof -
  have "CNaN \<notin> set (cells (fillna_series s))"
    by (metis cells_fillna_series fillna_cell_not_NaN imageE list.set_map)
  then show ?thesis by (simp add: fillna_series_def [of "fillna_series s"])
qed

lemma cell_equal_refl: "cell_equal c c"
  by (cases c) auto

lemma series_equals_refl: "series_equals s s"
  by (simp add: series_equals_def list_all2_refl cell_equal_refl)

lemma frame_equals_refl: "frame_equals df df"
  by (simp add: frame_equals_def list_all2_refl series_equals_refl)

lemma normalized_cells:
  "map (\<lambda>(n, s). cells s) (columns (normalize_frame df)) =
   map (\<lambda>(n, s). map (\<lambda>c. replace_zero_cell (fillna_cell c)) (cells s)) (columns df)"
  by (simp add: normalize_frame_def replace_zero_def fillna_def cells_replace_zero_series
      cells_fillna_series case_prod_beta comp_def)

lemma sentinel_cell:
  "replace_zero_cell (fillna_cell c) = (if c = CNaN \<or> c = CNum 0 then CStr [] else c)"
  by (cases c) auto

subsection \<open>The claims about the comparator\<close>

text \<open>
  Claim C5. The exact pass is reflexive: a table compared with itself passes, whatever
  it holds. Both sides are normalized in the same way, and in the normalized table every
  missing value and every numeric zero has become the empty string, every other cell
  being unchanged.
\<close>

theorem exact_pass_reflexive:
  "frame_equals (normalize_frame T) (normalize_frame T)
   \<and> compare_frames T T = Inr True
   \<and> test_parser (Inr T) (Inr T) = (True, None)
   \<and> map (\<lambda>(n, s). cells s) (columns (normalize_frame T)) =
       map (\<lambda>(n, s). map (\<lambda>c. if c = CNaN \<or> c = CNum 0 then CStr [] else c) (cells s))
         (columns T)"
proof -
  have e: "frame_equals (normalize_frame T) (normalize_frame T)" by (rule frame_equals_refl)
  then have c: "compare_frames T T = Inr True" by (simp add: compare_frames_def)
  then have t: "test_parser (Inr T) (Inr T) = (True, None)" by (simp add: test_parser_def)
  have "map (\<lambda>(n, s). cells s) (columns (normalize_frame T)) =
       map (\<lambda>(n, s). map (\<lambda>c. if c = CNaN \<or> c = CNum 0 then CStr [] else c) (cells s))
         (columns T)"
    using normalized_cells [of T] by (simp add: sentinel_cell)
  with e c t show ?thesis by blast
qed

lemma core_match_iff:
  "core_match r e = Inr True \<longleftrightarrow>
     (nrows r = nrows e \<and> column_names r = column_names e \<and>
      (\<exists>rd ed. getcol r ''Date'' = Inr rd \<and> getcol e ''Date'' = Inr ed \<and> series_equals rd ed) \<and>
      (\<exists>rb eb. getcol r ''Balance'' = Inr rb \<and> getcol e ''Balance'' = Inr eb \<and>
         series_equals rb eb))"
  by (auto simp: core_match_def split: sum.splits)

text \<open>
  Claim C4, as stated, fails. The line parser's table for a salary line and a reference
  that writes the same amounts without decimals have equal row counts, equal column
  lists and, element by element, equal Date and Balance columns; the descriptions differ,
  so the exact pass fails. The lenient pass fails as well: \<^verbatim>\<open>Series.equals\<close> also compares
  the dtypes, and the produced Balance column holds floats, the reference's integers.
\<close>

theorem lenient_pass_counterexample:
  "parse sample_pandas icici_keywords (Inr ''01-01-2024 Salary Credit 5000.00 10000.00'') None
     (Some (Inr salary_reference_int)) = Inr salary_result
   \<and> \<not> frame_equals (normalize_frame salary_result) (normalize_frame salary_reference_int)
   \<and> spec_core_match (normalize_frame salary_result) (normalize_frame salary_reference_int)
   \<and> test_parser (Inr salary_result) (Inr salary_reference_int) = (False, None)"
proof -
  have p: "parse_transactions icici_keywords ''01-01-2024 Salary Credit 5000.00 10000.00'' =
      [\<lparr>Date = ''01-01-2024'', Description = ''Salary Credit'', Debit_Amt = [],
        Credit_Amt = ''5000.00'', Balance = ''10000.00''\<rparr>]"
    by (simp add: parser_eval)
  have d: "sample_date ''01-01-2024'' = Some ''01-01-2024''"
    by (simp add: sample_date_def date_pattern_def is_digit_def is_dash_def digits_value_def
        digit_val_def)
  have n: "plain_decimal [] = None" "plain_decimal ''5000.00'' = Some 5000"
    "plain_decimal ''10000.00'' = Some 10000"
    by (simp_all add: plain_decimal_def is_digit_def is_dot_def digits_value_def digit_val_def)
  have "parse sample_pandas icici_keywords (Inr ''01-01-2024 Salary Credit 5000.00 10000.00'') None
     (Some (Inr salary_reference_int)) = Inr salary_result"
    by (simp add: parse_def p typed_frame_def to_datetime_series_def to_numeric_coerce_def
        sample_pandas_def object_series_def fillna_series_def d n salary_result_def)
  moreover have "\<not> frame_equals (normalize_frame salary_result) (normalize_frame salary_reference_int)"
    by (simp add: frame_eval salary_result_def salary_reference_int_def)
  moreover have "spec_core_match (normalize_frame salary_result) (normalize_frame salary_reference_int)"
    by (simp add: frame_eval spec_core_match_def elementwise_equal_def salary_result_def
        salary_reference_int_def)
  moreover have "test_parser (Inr salary_result) (Inr salary_reference_int) = (False, None)"
    by (simp add: frame_eval salary_result_def salary_reference_int_def)
  ultimately show ?thesis by blast
qed

text \<open>
  Claim C4, amended. The test passes exactly when the normalized tables are equal or,
  failing that, have equal row counts, equal column lists, and a Date column and a Balance
  column each, equal in the sense of \<^verbatim>\<open>Series.equals\<close>: the same dtype and the same cells.
  The lenient conditions do not mention the Description, Debit and Credit columns, so any
  difference confined to them is tolerated; and they are consulted only when the exact
  comparison fails, since equal tables pass even without a Date column.
\<close>

theorem lenient_pass_criterion:
  "fst (test_parser (Inr result_df) (Inr expected_df)) =
     (let r = normalize_frame result_df; e = normalize_frame expected_df
      in frame_equals r e \<or>
         (nrows r = nrows e \<and> column_names r = column_names e \<and>
          (\<exists>rd ed. getcol r ''Date'' = Inr rd \<and> getcol e ''Date'' = Inr ed \<and>
             series_equals rd ed) \<and>
          (\<exists>rb eb. getcol r ''Balance'' = Inr rb \<and> getcol e ''Balance'' = Inr eb \<and>
             series_equals rb eb)))"
proof (cases "frame_equals (normalize_frame result_df) (normalize_frame expected_df)")
  case True
  then show ?thesis by (simp add: test_parser_def compare_frames_def Let_def)
next
  case False
  have "fst (test_parser (Inr result_df) (Inr expected_df)) =
          (core_match (normalize_frame result_df) (normalize_frame expected_df) = Inr True)"
    using False by (auto simp: test_parser_def compare_frames_def Let_def split: sum.splits)
  with False show ?thesis by (simp add: core_match_iff Let_def)
qed

subsection \<open>The fallback on a well-formed reference\<close>

lemma map_of_distinct_value:
  "distinct (map fst cols) \<Longrightarrow> map_of cols n = Some s \<Longrightarrow> (m, x) \<in> set cols \<Longrightarrow> m = n
     \<Longrightarrow> x = s"
  by (metis map_of_is_SomeI option.inject)

lemma setcol_same:
  assumes "distinct (column_names df)" and "getcol df n = Inr s"
  shows "setcol df n s = df"
proof -
  from assms(2) have m: "map_of (columns df) n = Some s"
    by (auto simp: getcol_def split: option.splits)
  have "map (\<lambda>(k, x). if k = n then (k, s) else (k, x)) (columns df) = columns df"
  proof (intro map_idI)
    fix p assume pin: "p \<in> set (columns df)"
    obtain k x where p: "p = (k, x)" by (cases p)
    have "k = n \<Longrightarrow> x = s"
      using map_of_distinct_value [OF assms(1) [unfolded column_names_def] m, of k x] pin p
      by simp
    then show "(case p of (k, x) \<Rightarrow> if k = n then (k, s) else (k, x)) = p"
      using p by auto
  qed
  then show ?thesis by (simp add: setcol_def)
qed

lemma column_names_setcol: "column_names (setcol df n s) = column_names df"
  by (simp add: setcol_def column_names_def case_prod_beta comp_def)

lemma getcol_setcol_other: "m \<noteq> n \<Longrightarrow> getcol (setcol df n s) m = getcol df m"
proof -
  assume "m \<noteq> n"
  then have "map_of (map (\<lambda>(k, x). if k = n then (k, s) else (k, x)) cols) m = map_of cols m"
    for cols :: "(string \<times> series) list"
    by (induction cols) auto
  then show ?thesis by (simp add: getcol_def setcol_def)
qed

lemma fillna_setcol_fillna:
  assumes "distinct (column_names df)" and "getcol df n = Inr s"
  shows "fillna (setcol df n (fillna_series s)) = fillna df"
proof -
  from assms(2) have m: "map_of (columns df) n = Some s"
    by (auto simp: getcol_def split: option.splits)
  have "map ((\<lambda>(k, x). (k, fillna_series x)) \<circ>
             (\<lambda>(k, x). if k = n then (k, fillna_series s) else (k, x))) (columns df) =
        map (\<lambda>(k, x). (k, fillna_series x)) (columns df)"
  proof (intro map_cong refl)
    fix p assume pin: "p \<in> set (columns df)"
    obtain k x where p: "p = (k, x)" by (cases p)
    have "k = n \<Longrightarrow> x = s"
      using map_of_distinct_value [OF assms(1) [unfolded column_names_def] m, of k x] pin p
      by simp
    then show "((\<lambda>(k, x). (k, fillna_series x)) \<circ>
             (\<lambda>(k, x). if k = n then (k, fillna_series s) else (k, x))) p =
          (\<lambda>(k, x). (k, fillna_series x)) p"
      using p by (auto simp: fillna_series_idem)
  qed
  then show ?thesis by (simp add: fillna_def setcol_def)
qed

lemma fillna_series_numeric_coerce:
  "dtype s \<noteq> Object \<Longrightarrow> to_numeric_coerce lib s = s"
  by (simp add: to_numeric_coerce_def)

lemma those_date_cells:
  "list_all (date_round_trip lib) cs \<Longrightarrow> those (map (date_cell lib) cs) = Some cs"
proof (induction cs)
  case Nil
  then show ?case by simp
next
  case (Cons c cs)
  then have "date_cell lib c = Some c"
    by (cases c) (auto simp: date_round_trip_def)
  with Cons show ?case by simp
qed

lemma to_datetime_series_id:
  assumes "dtype s = Object" and "list_all (date_round_trip lib) (cells s)"
  shows "to_datetime_series lib s = Inr s"
proof -
  have "object_series (cells s) = s" using assms(1) by (simp add: object_series_def)
  then show ?thesis
    using those_date_cells [OF assms(2)] by (simp add: to_datetime_series_def)
qed

lemma fallback_on_clean_reference:
  assumes dist: "distinct (column_names ref)"
    and date: "getcol ref ''Date'' = Inr date" "dtype date = Object"
      "list_all (date_round_trip lib) (cells date)"
    and debit: "getcol ref ''Debit Amt'' = Inr debit" "dtype debit \<noteq> Object"
    and credit: "getcol ref ''Credit Amt'' = Inr credit" "dtype credit \<noteq> Object"
    and balance: "getcol ref ''Balance'' = Inr balance" "dtype balance \<noteq> Object"
  shows "\<exists>out. fallback_to_csv lib (Some (Inr ref)) = Inr out \<and> fillna out = fillna ref"
proof -
  define df2 where "df2 = setcol ref ''Debit Amt'' (fillna_series debit)"
  define df3 where "df3 = setcol df2 ''Credit Amt'' (fillna_series credit)"
  have d1: "setcol ref ''Date'' date = ref" using dist date(1) by (rule setcol_same)
  have c2: "getcol df2 ''Credit Amt'' = Inr credit"
    unfolding df2_def using credit(1) by (simp add: getcol_setcol_other)
  have b2: "getcol df2 ''Balance'' = Inr balance"
    unfolding df2_def using balance(1) by (simp add: getcol_setcol_other)
  have b3: "getcol df3 ''Balance'' = Inr balance"
    unfolding df3_def using b2 by (simp add: getcol_setcol_other)
  have n2: "distinct (column_names df2)" unfolding df2_def using dist by (simp add: column_names_setcol)
  have n3: "distinct (column_names df3)" unfolding df3_def using n2 by (simp add: column_names_setcol)
  have s3: "setcol df3 ''Balance'' balance = df3" using n3 b3 by (rule setcol_same)
  have out: "fallback_to_csv lib (Some (Inr ref)) = Inr df3"
    using date debit credit balance d1 c2 b3 s3
    by (simp add: fallback_to_csv_def to_datetime_series_id fillna_series_numeric_coerce
        df2_def [symmetric] df3_def [symmetric] Let_def)
  have "fillna df3 = fillna df2" unfolding df3_def using n2 c2 by (rule fillna_setcol_fillna)
  also have "\<dots> = fillna ref" unfolding df2_def using dist debit(1) by (rule fillna_setcol_fillna)
  finally show ?thesis using out by blast
qed

text \<open>
  Claim C2, amended. When the text extraction raises or the line parser finds no record,
  and the reference CSV exists and is readable, \<^verbatim>\<open>parse\<close> returns what the fallback derives
  from the reference. If the reference has distinct column labels, a Date column of
  strings that the date conversion returns unchanged (or missing values), and numeric
  Debit Amt, Credit Amt and Balance columns (numbers and blanks only), that output
  passes the exact check against the reference after the normalization of both sides.
\<close>

theorem fallback_passes_exact_check:
  assumes trigger: "ext = Inl err \<or>
                    (\<exists>text. ext = Inr text \<and> parse_transactions keywords text = [])"
    and dist: "distinct (column_names ref)"
    and date: "getcol ref ''Date'' = Inr date" "dtype date = Object"
      "list_all (date_round_trip lib) (cells date)"
    and debit: "getcol ref ''Debit Amt'' = Inr debit" "dtype debit \<noteq> Object"
    and credit: "getcol ref ''Credit Amt'' = Inr credit" "dtype credit \<noteq> Object"
    and balance: "getcol ref ''Balance'' = Inr balance" "dtype balance \<noteq> Object"
  shows "\<exists>out. parse lib keywords ext save (Some (Inr ref)) = Inr out \<and>
               fallback_to_csv lib (Some (Inr ref)) = Inr out \<and>
               frame_equals (normalize_frame out) (normalize_frame ref) \<and>
               test_parser (Inr out) (read_csv (Some (Inr ref))) = (True, None)"
proof -
  from fallback_on_clean_reference [OF dist date debit credit balance]
  obtain out where out: "fallback_to_csv lib (Some (Inr ref)) = Inr out"
    and fill: "fillna out = fillna ref" by blast
  from trigger have p: "parse lib keywords ext save (Some (Inr ref)) =
      fallback_to_csv lib (Some (Inr ref))"
    by (auto simp: parse_def)
  have n: "normalize_frame out = normalize_frame ref"
    using fill by (simp add: normalize_frame_def)
  then have e: "frame_equals (normalize_frame out) (normalize_frame ref)"
    by (simp add: frame_equals_refl)
  then have "test_parser (Inr out) (read_csv (Some (Inr ref))) = (True, None)"
    by (simp add: test_parser_def read_csv_def compare_frames_def)
  with p out e show ?thesis by simp
qed

text \<open>The theorem at a one-row reference, the extraction having raised.\<close>

theorem fallback_passes_exact_check_witness:
  "distinct (column_names salary_reference)
   \<and> getcol salary_reference ''Date'' = Inr \<lparr>dtype = Object, cells = [CStr ''01-01-2024'']\<rparr>
   \<and> list_all (date_round_trip sample_pandas) [CStr ''01-01-2024'']
   \<and> getcol salary_reference ''Debit Amt'' = Inr \<lparr>dtype = Float64, cells = [CNaN]\<rparr>
   \<and> getcol salary_reference ''Credit Amt'' = Inr \<lparr>dtype = Float64, cells = [CNum 5000]\<rparr>
   \<and> getcol salary_reference ''Balance'' = Inr \<lparr>dtype = Float64, cells = [CNum 10000]\<rparr>
   \<and> (\<exists>out. parse sample_pandas icici_keywords (Inl (OtherError ''cannot read the document''))
               None (Some (Inr salary_reference)) = Inr out \<and>
             test_parser (Inr out) (read_csv (Some (Inr salary_reference))) = (True, None))"
proof -
  have h0: "Inl (OtherError ''cannot read the document'') = Inl (OtherError ''cannot read the document'') \<or>
      (\<exists>text. Inl (OtherError ''cannot read the document'') = Inr text \<and>
         parse_transactions icici_keywords text = [])"
    by simp
  have h1: "distinct (column_names salary_reference)"
    by (simp add: column_names_def salary_reference_def)
  have h2: "getcol salary_reference ''Date'' = Inr \<lparr>dtype = Object, cells = [CStr ''01-01-2024'']\<rparr>"
    by (simp add: getcol_def salary_reference_def)
  have h3: "dtype \<lparr>dtype = Object, cells = [CStr ''01-01-2024'']\<rparr> = Object" by simp
  have h4: "list_all (date_round_trip sample_pandas)
              (cells \<lparr>dtype = Object, cells = [CStr ''01-01-2024'']\<rparr>)"
    by (simp add: date_round_trip_def sample_pandas_def sample_date_def date_pattern_def
        is_digit_def is_dash_def digits_value_def digit_val_def)
  have h5: "getcol salary_reference ''Debit Amt'' = Inr \<lparr>dtype = Float64, cells = [CNaN]\<rparr>"
    by (simp add: getcol_def salary_reference_def)
  have h6: "dtype \<lparr>dtype = Float64, cells = [CNaN]\<rparr> \<noteq> Object" by simp
  have h7: "getcol salary_reference ''Credit Amt'' = Inr \<lparr>dtype = Float64, cells = [CNum 5000]\<rparr>"
    by (simp add: getcol_def salary_reference_def)
  have h8: "dtype \<lparr>dtype = Float64, cells = [CNum 5000]\<rparr> \<noteq> Object" by simp
  have h9: "getcol salary_reference ''Balance'' = Inr \<lparr>dtype = Float64, cells = [CNum 10000]\<rparr>"
    by (simp add: getcol_def salary_reference_def)
  have h10: "dtype \<lparr>dtype = Float64, cells = [CNum 10000]\<rparr> \<noteq> Object" by simp
  from fallback_passes_exact_check [OF h0 h1 h2 h3 h4 h5 h6 h7 h8 h9 h10, of None]
  have "\<exists>out. parse sample_pandas icici_keywords (Inl (OtherError ''cannot read the document''))
               None (Some (Inr salary_reference)) = Inr out \<and>
             test_parser (Inr out) (read_csv (Some (Inr salary_reference))) = (True, None)"
    by blast
  with h1 h2 h4 h5 h7 h9 show ?thesis by simp
qed

text \<open>
  Claim C2, as stated, fails. The fallback does not replay the reference as it is: it
  converts the dates and coerces the amounts. With a reference whose date has month 13,
  a token the line parser itself would take for a date, the date conversion raises inside
  the fallback; \<^verbatim>\<open>parse\<close> raises, there is no output to compare, and the test fails with
  the error logged.
\<close>

theorem fallback_counterexample:
  "parse sample_pandas icici_keywords (Inl (OtherError ''cannot read the document'')) None
     (Some (Inr month13_reference)) = Inl (ValueError ''time data does not match format'')
   \<and> test_parser
        (parse sample_pandas icici_keywords (Inl (OtherError ''cannot read the document'')) None
           (Some (Inr month13_reference)))
        (read_csv (Some (Inr month13_reference))) =
       (False, Some (ValueError ''time data does not match format''))"
proof -
  have d: "sample_date ''31-13-2024'' = None"
    by (simp add: sample_date_def date_pattern_def is_digit_def is_dash_def digits_value_def
        digit_val_def)
  have p: "parse sample_pandas icici_keywords (Inl (OtherError ''cannot read the document'')) None
     (Some (Inr month13_reference)) = Inl (ValueError ''time data does not match format'')"
    by (simp add: parse_def fallback_to_csv_def getcol_def month13_reference_def
        to_datetime_series_def sample_pandas_def d)
  then show ?thesis by (simp add: test_parser_def)
qed

section \<open>Properties of the driver\<close>

subsection \<open>One iteration, and what every run establishes\<close>

text \<open>The loop is unfolded one iteration at a time.\<close>

declare run_loop.simps [simp del]

lemma run_loop_stop:
  "\<not> (attempt st \<le> max_attempts st \<and> \<not> success st) \<Longrightarrow> run_loop lib env st = (st, 0)"
  by (subst run_loop.simps) auto

lemma run_loop_raised:
  assumes "attempt st \<le> max_attempts st" and "\<not> success st"
    and "cycle lib st (env (attempt st)) = Inl e"
  shows "run_loop lib env st =
     (let (st', n) =
        run_loop lib env
          (st\<lparr>error_log := error_log st @ [Error_in_attempt (attempt st) e],
              attempt := attempt st + 1\<rparr>)
      in (st', Suc n))"
  using assms by (subst run_loop.simps) simp

lemma run_loop_passed:
  assumes "attempt st \<le> max_attempts st" and "\<not> success st"
    and "cycle lib st (env (attempt st)) = Inr (True, logged)"
  shows "run_loop lib env st =
     (st\<lparr>error_log := error_log st @ log_test_error logged, success := True\<rparr>, 1)"
  using assms by (subst run_loop.simps) simp

lemma run_loop_failed:
  assumes "attempt st \<le> max_attempts st" and "\<not> success st"
    and "cycle lib st (env (attempt st)) = Inr (False, logged)"
  shows "run_loop lib env st =
     (let (st', n) =
        run_loop lib env
          (st\<lparr>error_log := error_log st @ log_test_error logged,
              attempt := attempt st + 1\<rparr>)
      in (st', Suc n))"
  using assms by (subst run_loop.simps) simp

lemma length_log_test_error: "length (log_test_error logged) \<le> 1"
  by (cases logged) (simp_all add: log_test_error_def)

lemma run_loop_post: "loop_post st (run_loop lib env st)"
proof (induction lib env st rule: run_loop.induct)
  case (1 lib env st)
  show ?case
  proof (cases "attempt st \<le> max_attempts st \<and> \<not> success st")
    case False
    then have "run_loop lib env st = (st, 0)" by (rule run_loop_stop)
    with False show ?thesis by (auto simp: loop_post_def)
  next
    case True
    then have a: "attempt st \<le> max_attempts st" and s: "\<not> success st" by simp_all
    show ?thesis
    proof (cases "cycle lib st (env (attempt st))")
      case (Inl e)
      let ?st1 = "st\<lparr>error_log := error_log st @ [Error_in_attempt (attempt st) e],
                       attempt := attempt st + 1\<rparr>"
      obtain st' n where r: "run_loop lib env ?st1 = (st', n)" by (cases "run_loop lib env ?st1")
      have "loop_post ?st1 (run_loop lib env ?st1)" using "1.IH"(1) [OF True Inl] .
      with r have p: "loop_post ?st1 (st', n)" by simp
      have "run_loop lib env st = (st', Suc n)"
        using run_loop_raised [where env = env and st = st, OF a s Inl] r by simp
      moreover have "loop_post st (st', Suc n)"
        using p a s by (auto simp: loop_post_def)
      ultimately show ?thesis by simp
    next
      case (Inr res)
      obtain passed logged where res: "res = (passed, logged)" by (cases res)
      show ?thesis
      proof (cases passed)
        case True
        with Inr res have c: "cycle lib st (env (attempt st)) = Inr (True, logged)" by simp
        show ?thesis
          using run_loop_passed [where env = env and st = st, OF a s c] a s length_log_test_error [of logged]
          by (auto simp: loop_post_def)
      next
        case False
        with Inr res have c: "cycle lib st (env (attempt st)) = Inr (False, logged)" by simp
        let ?st1 = "st\<lparr>error_log := error_log st @ log_test_error logged,
                         attempt := attempt st + 1\<rparr>"
        obtain st' n where r: "run_loop lib env ?st1 = (st', n)" by (cases "run_loop lib env ?st1")
        have "loop_post ?st1 (run_loop lib env ?st1)"
          using "1.IH"(2) [OF \<open>attempt st \<le> max_attempts st \<and> \<not> success st\<close> Inr res [symmetric] False] .
        with r have p: "loop_post ?st1 (st', n)" by simp
        have "run_loop lib env st = (st', Suc n)"
          using run_loop_failed [where env = env and st = st, OF a s c] r by simp
        moreover have "loop_post st (st', Suc n)"
          using p a s length_log_test_error [of logged] by (auto simp: loop_post_def)
        ultimately show ?thesis by simp
      qed
    qed
  qed
qed

subsection \<open>A missing file\<close>

lemma cycle_missing_csv:
  "csv_file w = None \<Longrightarrow>
   cycle lib st w = Inl (FileNotFoundError (''CSV file not found: '' @ csv_path st))"
  by (simp add: cycle_def analyze_data_def)

lemma cycle_missing_pdf:
  "csv_file w = Some (Inr df) \<Longrightarrow> \<not> pdf_exists w \<Longrightarrow>
   cycle lib st w = Inl (FileNotFoundError (''PDF file not found: '' @ pdf_path st))"
  by (simp add: cycle_def analyze_data_def)

lemma all_missing_run:
  assumes "\<forall>k. csv_file (env k) = None"
  shows "nat (max_attempts st + 1 - attempt st) = m \<Longrightarrow> \<not> success st \<Longrightarrow>
    run_loop lib env st =
      (st\<lparr>error_log := error_log st @
             map (\<lambda>k. Error_in_attempt k
                    (FileNotFoundError (''CSV file not found: '' @ csv_path st)))
               [attempt st..max_attempts st],
          attempt := attempt st + int m\<rparr>, m)"
proof (induction m arbitrary: st)
  case 0
  then have "\<not> (attempt st \<le> max_attempts st \<and> \<not> success st)" by simp
  then have "run_loop lib env st = (st, 0)" by (rule run_loop_stop)
  moreover from 0 have "[attempt st..max_attempts st] = []" by simp
  ultimately show ?case by simp
next
  case (Suc m)
  then have a: "attempt st \<le> max_attempts st" and s: "\<not> success st" by simp_all
  let ?e = "FileNotFoundError (''CSV file not found: '' @ csv_path st)"
  let ?st1 = "st\<lparr>error_log := error_log st @ [Error_in_attempt (attempt st) ?e],
                   attempt := attempt st + 1\<rparr>"
  have c: "cycle lib st (env (attempt st)) = Inl ?e"
    using assms by (simp add: cycle_missing_csv)
  have m1: "nat (max_attempts ?st1 + 1 - attempt ?st1) = m" using Suc.prems by simp
  have s1: "\<not> success ?st1" using s by simp
  have r1: "run_loop lib env ?st1 =
      (?st1\<lparr>error_log := error_log ?st1 @
             map (\<lambda>k. Error_in_attempt k
                    (FileNotFoundError (''CSV file not found: '' @ csv_path ?st1)))
               [attempt ?st1..max_attempts ?st1],
          attempt := attempt ?st1 + int m\<rparr>, m)"
    using Suc.IH [OF m1 s1] .
  have u: "[attempt st..max_attempts st] = attempt st # [attempt st + 1..max_attempts st]"
    using a by (simp add: upto_rec1)
  show ?case
    using run_loop_raised [where env = env and st = st, OF a s c] r1 u by simp
qed

lemma all_missing_pdf_run:
  assumes "\<forall>k. (\<exists>df. csv_file (env k) = Some (Inr df)) \<and> \<not> pdf_exists (env k)"
  shows "nat (max_attempts st + 1 - attempt st) = m \<Longrightarrow> \<not> success st \<Longrightarrow>
    run_loop lib env st =
      (st\<lparr>error_log := error_log st @
             map (\<lambda>k. Error_in_attempt k
                    (FileNotFoundError (''PDF file not found: '' @ pdf_path st)))
               [attempt st..max_attempts st],
          attempt := attempt st + int m\<rparr>, m)"
proof (induction m arbitrary: st)
  case 0
  then have "\<not> (attempt st \<le> max_attempts st \<and> \<not> success st)" by simp
  then have "run_loop lib env st = (st, 0)" by (rule run_loop_stop)
  moreover from 0 have "[attempt st..max_attempts st] = []" by simp
  ultimately show ?case by simp
next
  case (Suc m)
  then have a: "attempt st \<le> max_attempts st" and s: "\<not> success st" by simp_all
  let ?e = "FileNotFoundError (''PDF file not found: '' @ pdf_path st)"
  let ?st1 = "st\<lparr>error_log := error_log st @ [Error_in_attempt (attempt st) ?e],
                   attempt := attempt st + 1\<rparr>"
  from assms obtain df where "csv_file (env (attempt st)) = Some (Inr df)"
    and "\<not> pdf_exists (env (attempt st))" by blast
  then have c: "cycle lib st (env (attempt st)) = Inl ?e"
    by (rule cycle_missing_pdf)
  have m1: "nat (max_attempts ?st1 + 1 - attempt ?st1) = m" using Suc.prems by simp
  have s1: "\<not> success ?st1" using s by simp
  have r1: "run_loop lib env ?st1 =
      (?st1\<lparr>error_log := error_log ?st1 @
             map (\<lambda>k. Error_in_attempt k
                    (FileNotFoundError (''PDF file not found: '' @ pdf_path ?st1)))
               [attempt ?st1..max_attempts ?st1],
          attempt := attempt ?st1 + int m\<rparr>, m)"
    using Suc.IH [OF m1 s1] .
  have u: "[attempt st..max_attempts st] = attempt st # [attempt st + 1..max_attempts st]"
    using a by (simp add: upto_rec1)
  show ?case
    using run_loop_raised [where env = env and st = st, OF a s c] r1 u by simp
qed

text \<open>
  Claim C3, amended. A missing reference CSV or a missing document makes the analysis step
  raise \<^verbatim>\<open>FileNotFoundError\<close>, and the loop treats it as any other exception: the error is
  appended to the log, the attempt counter is incremented and the loop goes on with the
  next attempt. When the reference is missing at every attempt, or the document is, all
  the remaining attempts are consumed, one log entry each, and the run ends without
  success.
\<close>

theorem missing_file_is_retried:
  assumes "attempt st \<le> max_attempts st" and "\<not> success st"
  shows "(csv_file (env (attempt st)) = None \<longrightarrow>
            run_loop lib env st =
              (let (st', n) =
                 run_loop lib env
                   (st\<lparr>error_log := error_log st @
                          [Error_in_attempt (attempt st)
                             (FileNotFoundError (''CSV file not found: '' @ csv_path st))],
                       attempt := attempt st + 1\<rparr>)
               in (st', Suc n)))
       \<and> ((\<exists>df. csv_file (env (attempt st)) = Some (Inr df)) \<and> \<not> pdf_exists (env (attempt st)) \<longrightarrow>
            run_loop lib env st =
              (let (st', n) =
                 run_loop lib env
                   (st\<lparr>error_log := error_log st @
                          [Error_in_attempt (attempt st)
                             (FileNotFoundError (''PDF file not found: '' @ pdf_path st))],
                       attempt := attempt st + 1\<rparr>)
               in (st', Suc n)))
       \<and> ((\<forall>k. csv_file (env k) = None) \<longrightarrow>
            run_loop lib env st =
              (st\<lparr>error_log := error_log st @
                     map (\<lambda>k. Error_in_attempt k
                            (FileNotFoundError (''CSV file not found: '' @ csv_path st)))
                       [attempt st..max_attempts st],
                  attempt := max_attempts st + 1\<rparr>,
               nat (max_attempts st + 1 - attempt st)))
       \<and> ((\<forall>k. (\<exists>df. csv_file (env k) = Some (Inr df)) \<and> \<not> pdf_exists (env k)) \<longrightarrow>
            run_loop lib env st =
              (st\<lparr>error_log := error_log st @
                     map (\<lambda>k. Error_in_attempt k
                            (FileNotFoundError (''PDF file not found: '' @ pdf_path st)))
                       [attempt st..max_attempts st],
                  attempt := max_attempts st + 1\<rparr>,
               nat (max_attempts st + 1 - attempt st)))"
proof (intro conjI impI)
  assume "csv_file (env (attempt st)) = None"
  then have "cycle lib st (env (attempt st)) =
      Inl (FileNotFoundError (''CSV file not found: '' @ csv_path st))"
    by (rule cycle_missing_csv)
  then show "run_loop lib env st =
              (let (st', n) =
                 run_loop lib env
                   (st\<lparr>error_log := error_log st @
                          [Error_in_attempt (attempt st)
                             (FileNotFoundError (''CSV file not found: '' @ csv_path st))],
                       attempt := attempt st + 1\<rparr>)
               in (st', Suc n))"
    using assms by (intro run_loop_raised)
next
  assume "(\<exists>df. csv_file (env (attempt st)) = Some (Inr df)) \<and> \<not> pdf_exists (env (attempt st))"
  then have "cycle lib st (env (attempt st)) =
      Inl (FileNotFoundError (''PDF file not found: '' @ pdf_path st))"
    using cycle_missing_pdf by blast
  then show "run_loop lib env st =
              (let (st', n) =
                 run_loop lib env
                   (st\<lparr>error_log := error_log st @
                          [Error_in_attempt (attempt st)
                             (FileNotFoundError (''PDF file not found: '' @ pdf_path st))],
                       attempt := attempt st + 1\<rparr>)
               in (st', Suc n))"
    using assms by (intro run_loop_raised)
next
  assume all: "\<forall>k. csv_file (env k) = None"
  have "attempt st + int (nat (max_attempts st + 1 - attempt st)) = max_attempts st + 1"
    using assms(1) by simp
  then show "run_loop lib env st =
              (st\<lparr>error_log := error_log st @
                     map (\<lambda>k. Error_in_attempt k
                            (FileNotFoundError (''CSV file not found: '' @ csv_path st)))
                       [attempt st..max_attempts st],
                  attempt := max_attempts st + 1\<rparr>,
               nat (max_attempts st + 1 - attempt st))"
    using all_missing_run [where lib = lib and st = st, OF all refl assms(2)] by simp
next
  assume all: "\<forall>k. (\<exists>df. csv_file (env k) = Some (Inr df)) \<and> \<not> pdf_exists (env k)"
  have "attempt st + int (nat (max_attempts st + 1 - attempt st)) = max_attempts st + 1"
    using assms(1) by simp
  then show "run_loop lib env st =
              (st\<lparr>error_log := error_log st @
                     map (\<lambda>k. Error_in_attempt k
                            (FileNotFoundError (''PDF file not found: '' @ pdf_path st)))
                       [attempt st..max_attempts st],
                  attempt := max_attempts st + 1\<rparr>,
               nat (max_attempts st + 1 - attempt st))"
    using all_missing_pdf_run [where lib = lib and st = st, OF all refl assms(2)] by simp
qed

text \<open>The definitions unfolded to run the loop on the sample worlds.\<close>

lemmas driver_eval =
  icici_state_def initial_state_def missing_csv_world_def mismatch_world_def
  matching_world_def changing_env_def

text \<open>
  Claim C3, as stated, fails: with the reference CSV missing, the run that starts from the
  constructor's state executes three cycles, each raising the same error, and ends with
  the attempt counter at 4. The error is a retry trigger, and every attempt is consumed.
\<close>

theorem missing_file_counterexample:
  "run_loop sample_pandas (\<lambda>k. missing_csv_world) icici_state =
     (icici_state
        \<lparr>error_log :=
           [Error_in_attempt 1 (FileNotFoundError ''CSV file not found: data/icici/result.csv''),
            Error_in_attempt 2 (FileNotFoundError ''CSV file not found: data/icici/result.csv''),
            Error_in_attempt 3 (FileNotFoundError ''CSV file not found: data/icici/result.csv'')],
         attempt := 4\<rparr>, 3)"
proof -
  have all: "\<forall>k. csv_file ((\<lambda>k. missing_csv_world) k) = None"
    by (simp add: missing_csv_world_def)
  have s: "\<not> success icici_state" by (simp add: driver_eval)
  have m: "nat (max_attempts icici_state + 1 - attempt icici_state) = 3"
    by (simp add: driver_eval)
  have u: "[1..3] = [1, 2, 3::int]" by (simp add: upto_rec1)
  show ?thesis
    using all_missing_run [where lib = sample_pandas, OF all m s] u
    by (simp add: driver_eval)
qed

text \<open>
  The theorem at the constructor's state, with the reference missing throughout and with
  the document missing throughout.
\<close>

theorem missing_file_is_retried_witness:
  "attempt icici_state \<le> max_attempts icici_state \<and> \<not> success icici_state
   \<and> csv_file missing_csv_world = None
   \<and> run_loop sample_pandas (\<lambda>k. missing_csv_world) icici_state =
       (icici_state
         \<lparr>error_log :=
            map (\<lambda>k. Error_in_attempt k
                   (FileNotFoundError (''CSV file not found: '' @ csv_path icici_state)))
              [1..3],
          attempt := 4\<rparr>, 3)
   \<and> csv_file missing_pdf_world = Some (Inr salary_reference)
   \<and> \<not> pdf_exists missing_pdf_world
   \<and> run_loop sample_pandas (\<lambda>k. missing_pdf_world) icici_state =
       (icici_state
         \<lparr>error_log :=
            map (\<lambda>k. Error_in_attempt k
                   (FileNotFoundError (''PDF file not found: '' @ pdf_path icici_state)))
              [1..3],
          attempt := 4\<rparr>, 3)"
proof -
  have a: "attempt icici_state \<le> max_attempts icici_state" by (simp add: driver_eval)
  have s: "\<not> success icici_state" by (simp add: driver_eval)
  have c: "csv_file missing_csv_world = None" by (simp add: missing_csv_world_def)
  have p1: "csv_file missing_pdf_world = Some (Inr salary_reference)"
    by (simp add: missing_pdf_world_def)
  have p2: "\<not> pdf_exists missing_pdf_world" by (simp add: missing_pdf_world_def)
  have all: "\<forall>k. csv_file ((\<lambda>k. missing_csv_world) k) = None" using c by simp
  have allp: "\<forall>k. (\<exists>df. csv_file ((\<lambda>k. missing_pdf_world) k) = Some (Inr df)) \<and>
                  \<not> pdf_exists ((\<lambda>k. missing_pdf_world) k)"
    using p1 p2 by simp
  have "(\<forall>k. csv_file ((\<lambda>k. missing_csv_world) k) = None) \<longrightarrow>
        run_loop sample_pandas (\<lambda>k. missing_csv_world) icici_state =
          (icici_state\<lparr>error_log := error_log icici_state @
                     map (\<lambda>k. Error_in_attempt k
                            (FileNotFoundError (''CSV file not found: '' @ csv_path icici_state)))
                       [attempt icici_state..max_attempts icici_state],
                  attempt := max_attempts icici_state + 1\<rparr>,
               nat (max_attempts icici_state + 1 - attempt icici_state))"
    using missing_file_is_retried
      [where env = "\<lambda>k. missing_csv_world" and lib = sample_pandas, OF a s,
        THEN conjunct2, THEN conjunct2, THEN conjunct1]
    by simp
  with all have r1: "run_loop sample_pandas (\<lambda>k. missing_csv_world) icici_state =
          (icici_state\<lparr>error_log := error_log icici_state @
                     map (\<lambda>k. Error_in_attempt k
                            (FileNotFoundError (''CSV file not found: '' @ csv_path icici_state)))
                       [attempt icici_state..max_attempts icici_state],
                  attempt := max_attempts icici_state + 1\<rparr>,
               nat (max_attempts icici_state + 1 - attempt icici_state))"
    by (rule rev_mp)
  have "(\<forall>k. (\<exists>df. csv_file ((\<lambda>k. missing_pdf_world) k) = Some (Inr df)) \<and>
               \<not> pdf_exists ((\<lambda>k. missing_pdf_world) k)) \<longrightarrow>
        run_loop sample_pandas (\<lambda>k. missing_pdf_world) icici_state =
          (icici_state\<lparr>error_log := error_log icici_state @
                     map (\<lambda>k. Error_in_attempt k
                            (FileNotFoundError (''PDF file not found: '' @ pdf_path icici_state)))
                       [attempt icici_state..max_attempts icici_state],
                  attempt := max_attempts icici_state + 1\<rparr>,
               nat (max_attempts icici_state + 1 - attempt icici_state))"
    using missing_file_is_retried
      [where env = "\<lambda>k. missing_pdf_world" and lib = sample_pandas, OF a s,
        THEN conjunct2, THEN conjunct2, THEN conjunct2]
    by simp
  with allp have r2: "run_loop sample_pandas (\<lambda>k. missing_pdf_world) icici_state =
          (icici_state\<lparr>error_log := error_log icici_state @
                     map (\<lambda>k. Error_in_attempt k
                            (FileNotFoundError (''PDF file not found: '' @ pdf_path icici_state)))
                       [attempt icici_state..max_attempts icici_state],
                  attempt := max_attempts icici_state + 1\<rparr>,
               nat (max_attempts icici_state + 1 - attempt icici_state))"
    by (rule rev_mp)
  have e: "error_log icici_state = []" "attempt icici_state = 1" "max_attempts icici_state = 3"
    by (simp_all add: driver_eval)
  show ?thesis using a s c p1 p2 r1 r2 by (simp add: e)
qed

subsection \<open>Runs on the sample worlds\<close>

lemma parse_salary_line:
  "parse sample_pandas icici_keywords (Inr ''01-01-2024 Salary Credit 5000.00 10000.00'') None csv =
     Inr salary_result"
proof -
  have p: "parse_transactions icici_keywords ''01-01-2024 Salary Credit 5000.00 10000.00'' =
      [\<lparr>Date = ''01-01-2024'', Description = ''Salary Credit'', Debit_Amt = [],
        Credit_Amt = ''5000.00'', Balance = ''10000.00''\<rparr>]"
    by (simp add: parser_eval)
  have d: "sample_date ''01-01-2024'' = Some ''01-01-2024''"
    by (simp add: sample_date_def date_pattern_def is_digit_def is_dash_def digits_value_def
        digit_val_def)
  have n: "plain_decimal [] = None" "plain_decimal ''5000.00'' = Some 5000"
    "plain_decimal ''10000.00'' = Some 10000"
    by (simp_all add: plain_decimal_def is_digit_def is_dot_def digits_value_def digit_val_def)
  show ?thesis
    by (simp add: parse_def p typed_frame_def to_datetime_series_def to_numeric_coerce_def
        sample_pandas_def object_series_def fillna_series_def d n salary_result_def)
qed

lemma test_other_balance:
  "test_parser (Inr salary_result) (Inr other_balance_reference) = (False, None)"
  by (simp add: frame_eval salary_result_def other_balance_reference_def)

lemma test_matching:
  "test_parser (Inr salary_result) (Inr salary_reference) = (True, None)"
  by (simp add: frame_eval salary_result_def salary_reference_def)

lemma cycle_mismatch_world:
  "target_bank st = ''icici'' \<Longrightarrow> cycle sample_pandas st mismatch_world = Inr (False, None)"
  by (simp add: cycle_def analyze_data_def generate_parser_def run_test_def read_csv_def
      mismatch_world_def template_keywords_def parse_salary_line test_other_balance)

lemma cycle_matching_world:
  "target_bank st = ''icici'' \<Longrightarrow> cycle sample_pandas st matching_world = Inr (True, None)"
  by (simp add: cycle_def analyze_data_def generate_parser_def run_test_def read_csv_def
      matching_world_def template_keywords_def parse_salary_line test_matching)

lemma cycle_missing_world:
  "cycle sample_pandas st missing_csv_world =
     Inl (FileNotFoundError (''CSV file not found: '' @ csv_path st))"
  by (simp add: cycle_missing_csv missing_csv_world_def)

lemma run_mismatch:
  "run_loop sample_pandas (\<lambda>k. mismatch_world) icici_state = (icici_state\<lparr>attempt := 4\<rparr>, 3)"
  by (simp add: run_loop.simps icici_state_def initial_state_def cycle_mismatch_world
      log_test_error_def)

lemma run_changing:
  "run_loop sample_pandas changing_env icici_state =
     (icici_state
        \<lparr>error_log :=
           [Error_in_attempt 1 (FileNotFoundError ''CSV file not found: data/icici/result.csv'')],
         attempt := 3, success := True\<rparr>, 3)"
  by (simp add: run_loop.simps icici_state_def initial_state_def changing_env_def
      cycle_mismatch_world cycle_matching_world cycle_missing_world log_test_error_def)

subsection \<open>The retry loop\<close>

text \<open>
  Claim C9, amended. The loop is a total function: it terminates from every state and in
  every sequence of worlds. From a state without success it executes at most
  \<open>max_attempts + 1 - attempt\<close> cycles, so at most three from the constructor's state; it
  ends with success or with the attempt counter beyond the ceiling; every failed cycle
  has incremented the counter, the passing one has not; the error log has only grown, by
  at most one entry per cycle; and \<^verbatim>\<open>main\<close> exits with 0 on success and with 1 and the
  accumulated log otherwise. One iteration: an exception of the cycle, and an exception
  inside the test, append one entry and increment the counter; a test that fails by
  plain mismatch increments the counter and appends nothing; a passing test ends the loop
  at once.
\<close>

theorem retry_loop_bounded:
  assumes "run_loop lib env st = (st', n)" and "\<not> success st"
  shows "n \<le> nat (max_attempts st + 1 - attempt st)
       \<and> (success st' \<or> max_attempts st < attempt st')
       \<and> attempt st' = attempt st + int n - (if success st' then 1 else 0)
       \<and> (\<exists>new. error_log st' = error_log st @ new \<and> length new \<le> n)
       \<and> main_exit st' = (if success st' then (0, []) else (1, error_log st'))
       \<and> snd (run_loop lib env (initial_state bank pdf csv parser)) \<le> 3
       \<and> (attempt st \<le> max_attempts st \<longrightarrow>
            (case cycle lib st (env (attempt st)) of
               Inl e \<Rightarrow>
                 run_loop lib env st =
                   (let (s1, k) =
                      run_loop lib env
                        (st\<lparr>error_log := error_log st @ [Error_in_attempt (attempt st) e],
                            attempt := attempt st + 1\<rparr>)
                    in (s1, Suc k))
             | Inr (True, logged) \<Rightarrow>
                 st' = st\<lparr>error_log := error_log st @ log_test_error logged, success := True\<rparr>
                 \<and> n = 1
             | Inr (False, Some e) \<Rightarrow>
                 run_loop lib env st =
                   (let (s1, k) =
                      run_loop lib env
                        (st\<lparr>error_log := error_log st @ [Parser_test_failed e],
                            attempt := attempt st + 1\<rparr>)
                    in (s1, Suc k))
             | Inr (False, None) \<Rightarrow>
                 run_loop lib env st =
                   (let (s1, k) = run_loop lib env (st\<lparr>attempt := attempt st + 1\<rparr>)
                    in (s1, Suc k))))"
proof -
  have post: "loop_post st (st', n)" using run_loop_post [of st lib env] assms(1) by simp
  have b: "n \<le> nat (max_attempts st + 1 - attempt st)"
    and x: "success st' \<or> max_attempts st < attempt st'"
    and c: "attempt st' = attempt st + int n - (if success st' then 1 else 0)"
    and l: "\<exists>new. error_log st' = error_log st @ new \<and> length new \<le> n"
    using post assms(2) by (auto simp: loop_post_def)
  have m: "main_exit st' = (if success st' then (0, []) else (1, error_log st'))"
    by (simp add: main_exit_def)
  have i: "snd (run_loop lib env (initial_state bank pdf csv parser)) \<le> 3"
    using run_loop_post [of "initial_state bank pdf csv parser" lib env]
    by (auto simp: loop_post_def initial_state_def split: prod.splits)
  have step: "attempt st \<le> max_attempts st \<longrightarrow>
            (case cycle lib st (env (attempt st)) of
               Inl e \<Rightarrow>
                 run_loop lib env st =
                   (let (s1, k) =
                      run_loop lib env
                        (st\<lparr>error_log := error_log st @ [Error_in_attempt (attempt st) e],
                            attempt := attempt st + 1\<rparr>)
                    in (s1, Suc k))
             | Inr (True, logged) \<Rightarrow>
                 st' = st\<lparr>error_log := error_log st @ log_test_error logged, success := True\<rparr>
                 \<and> n = 1
             | Inr (False, Some e) \<Rightarrow>
                 run_loop lib env st =
                   (let (s1, k) =
                      run_loop lib env
                        (st\<lparr>error_log := error_log st @ [Parser_test_failed e],
                            attempt := attempt st + 1\<rparr>)
                    in (s1, Suc k))
             | Inr (False, None) \<Rightarrow>
                 run_loop lib env st =
                   (let (s1, k) = run_loop lib env (st\<lparr>attempt := attempt st + 1\<rparr>)
                    in (s1, Suc k)))"
  proof
    assume a: "attempt st \<le> max_attempts st"
    show "(case cycle lib st (env (attempt st)) of
               Inl e \<Rightarrow>
                 run_loop lib env st =
                   (let (s1, k) =
                      run_loop lib env
                        (st\<lparr>error_log := error_log st @ [Error_in_attempt (attempt st) e],
                            attempt := attempt st + 1\<rparr>)
                    in (s1, Suc k))
             | Inr (True, logged) \<Rightarrow>
                 st' = st\<lparr>error_log := error_log st @ log_test_error logged, success := True\<rparr>
                 \<and> n = 1
             | Inr (False, Some e) \<Rightarrow>
                 run_loop lib env st =
                   (let (s1, k) =
                      run_loop lib env
                        (st\<lparr>error_log := error_log st @ [Parser_test_failed e],
                            attempt := attempt st + 1\<rparr>)
                    in (s1, Suc k))
             | Inr (False, None) \<Rightarrow>
                 run_loop lib env st =
                   (let (s1, k) = run_loop lib env (st\<lparr>attempt := attempt st + 1\<rparr>)
                    in (s1, Suc k)))"
    proof (cases "cycle lib st (env (attempt st))")
      case (Inl e)
      then show ?thesis
        using run_loop_raised [where env = env and st = st, OF a assms(2) Inl] by simp
    next
      case (Inr res)
      obtain passed logged where res: "res = (passed, logged)" by (cases res)
      show ?thesis
      proof (cases passed)
        case True
        with Inr res have cy: "cycle lib st (env (attempt st)) = Inr (True, logged)" by simp
        show ?thesis
          using run_loop_passed [where env = env and st = st, OF a assms(2) cy] assms(1) cy
          by simp
      next
        case False
        with Inr res have cy: "cycle lib st (env (attempt st)) = Inr (False, logged)" by simp
        show ?thesis
          using run_loop_failed [where env = env and st = st, OF a assms(2) cy] cy
          by (cases logged) (simp_all add: log_test_error_def)
      qed
    qed
  qed
  from b x c l m i step show ?thesis by blast
qed

text \<open>
  Claim C9, as stated, fails in one part: a failed attempt does not always append an
  error string. When the parser's table does not match the reference, \<^verbatim>\<open>_test_parser\<close>
  only logs warnings and returns \<open>False\<close>; three such attempts exhaust the run with the
  error log still empty, and \<^verbatim>\<open>main\<close> exits with 1 and no diagnostics.
\<close>

theorem retry_loop_counterexample:
  "run_loop sample_pandas (\<lambda>k. mismatch_world) icici_state = (icici_state\<lparr>attempt := 4\<rparr>, 3)
   \<and> error_log (icici_state\<lparr>attempt := 4\<rparr>) = []
   \<and> main_exit (icici_state\<lparr>attempt := 4\<rparr>) = (1, [])"
  using run_mismatch by (simp add: main_exit_def icici_state_def initial_state_def)

text \<open>
  The theorem at a run whose first cycle raises, whose second fails by mismatch and whose
  third passes.
\<close>

theorem retry_loop_bounded_witness:
  "run_loop sample_pandas changing_env icici_state =
     (icici_state
        \<lparr>error_log :=
           [Error_in_attempt 1 (FileNotFoundError ''CSV file not found: data/icici/result.csv'')],
         attempt := 3, success := True\<rparr>, 3)
   \<and> \<not> success icici_state
   \<and> attempt icici_state \<le> max_attempts icici_state
   \<and> (3::nat) \<le> nat (max_attempts icici_state + 1 - attempt icici_state)
   \<and> main_exit
        (icici_state
          \<lparr>error_log :=
             [Error_in_attempt 1 (FileNotFoundError ''CSV file not found: data/icici/result.csv'')],
           attempt := 3, success := True\<rparr>) = (0, [])"
proof -
  have s: "\<not> success icici_state" by (simp add: icici_state_def initial_state_def)
  have a: "attempt icici_state \<le> max_attempts icici_state"
    by (simp add: icici_state_def initial_state_def)
  have b: "(3::nat) \<le> nat (max_attempts icici_state + 1 - attempt icici_state)"
    by (simp add: icici_state_def initial_state_def)
  have "main_exit
        (icici_state
          \<lparr>error_log :=
             [Error_in_attempt 1 (FileNotFoundError ''CSV file not found: data/icici/result.csv'')],
           attempt := 3, success := True\<rparr>) = (0, [])"
    using retry_loop_bounded [OF run_changing s] by simp
  with run_changing s a b show ?thesis by blast
qed

end
